theory Spec2Isabelle
  imports Complex_Main "HOL-Library.Sublist"
begin

section \<open>Values, errors and the console\<close>

text \<open>
  The Gemini service of the study assistant exists in two files: one with the helpers
  \<^verbatim>\<open>fetchWithRetry\<close> and \<^verbatim>\<open>safeParseJson\<close>, whose functions keep their names here, and
  \<^verbatim>\<open>src/services/geminiService.ts\<close>, which calls \<^verbatim>\<open>fetch\<close> and \<^verbatim>\<open>JSON.parse\<close> directly.

  The service functions are \<^verbatim>\<open>async\<close> TypeScript over three platform services:
  \<^verbatim>\<open>fetch\<close>, \<^verbatim>\<open>JSON.parse\<close> and \<^verbatim>\<open>setTimeout\<close>/\<^verbatim>\<open>console\<close>.
  The first two are parameters (a transport and a parser); the effects are fields of an
  explicit world state (the number of fetch calls issued, the delays slept, the console),
  which every function takes and returns.  An \<^verbatim>\<open>await\<close> is sequential composition; a
  thrown error or rejected promise is the \<open>Inl\<close> of a sum.  Status codes, retry counts
  and delays in milliseconds are integers.
\<close>

text \<open>
  What \<^verbatim>\<open>JSON.parse\<close> and \<^verbatim>\<open>response.json()\<close> produce.  A JSON number is never NaN; it is
  falsy exactly when it is zero, which is all the code asks of a number.
\<close>

datatype json =
    JNull
  | JBool bool
  | JNum real
  | JStr string
  | JArr "json list"
  | JObj "(string \<times> json) list"

text \<open>Every \<^verbatim>\<open>Error\<close> the code constructs, and the rejections it receives from the platform.\<close>

datatype error =
    HttpError int
      \<comment> \<open>\<^verbatim>\<open>new Error(`HTTP error! status: ${response.status}`)\<close>\<close>
  | FetchExhausted string int
      \<comment> \<open>\<^verbatim>\<open>new Error(`Failed to fetch from ${url} after ${retries} attempts.`)\<close>\<close>
  | InvalidJson
      \<comment> \<open>\<^verbatim>\<open>new Error("Invalid JSON response from API. The response could not be parsed.")\<close>\<close>
  | NoContent
      \<comment> \<open>\<^verbatim>\<open>new Error('No content received from Gemini API')\<close>\<close>
  | Rejection string
      \<comment> \<open>a promise of the platform (\<^verbatim>\<open>fetch\<close>, \<^verbatim>\<open>response.json()\<close>) rejected, with its reason\<close>
  | SyntaxError
      \<comment> \<open>thrown by a bare \<^verbatim>\<open>JSON.parse\<close>\<close>
  | TypeError string
      \<comment> \<open>thrown by the language: property of \<^verbatim>\<open>null\<close>, spread of a non-iterable, call of a non-function\<close>

text \<open>Decimal rendering of a number inside a template literal (integers only).\<close>

fun show_nat :: "nat \<Rightarrow> string" where
  "show_nat n =
     (if n < 10 then [''0123456789'' ! n]
      else show_nat (n div 10) @ [''0123456789'' ! (n mod 10)])"

definition show_int :: "int \<Rightarrow> string" where
  "show_int i = (if i < 0 then CHR ''-'' # show_nat (nat (- i)) else show_nat (nat i))"

text \<open>The \<^verbatim>\<open>message\<close> of each error.\<close>

fun error_message :: "error \<Rightarrow> string" where
  "error_message (HttpError s) = ''HTTP error! status: '' @ show_int s"
| "error_message (FetchExhausted url retries) =
     ''Failed to fetch from '' @ url @ '' after '' @ show_int retries @ '' attempts.''"
| "error_message InvalidJson =
     ''Invalid JSON response from API. The response could not be parsed.''"
| "error_message NoContent = ''No content received from Gemini API''"
| "error_message (Rejection reason) = reason"
| "error_message SyntaxError = ''Unexpected token in JSON''"
| "error_message (TypeError what) = what"

datatype console_entry =
    WarnServerError int int int int
      \<comment> \<open>\<^verbatim>\<open>Server error (status). Retrying in delay/1000 s... (i+1/retries)\<close>\<close>
  | ErrorClient int
      \<comment> \<open>\<^verbatim>\<open>Client error (status). Aborting retries.\<close>\<close>
  | WarnNetwork int int int error
      \<comment> \<open>\<^verbatim>\<open>Network or fetch error. Retrying in delay/1000 s... (i+1/retries)\<close>, error\<close>
  | ErrorParse string
      \<comment> \<open>\<^verbatim>\<open>"Failed to parse JSON from Gemini API.", { rawContent: text }\<close>\<close>
  | ErrorIn string error
      \<comment> \<open>\<^verbatim>\<open>console.error('Error in f:', error)\<close>\<close>
  | ErrorAnalyzingPage int error
      \<comment> \<open>\<^verbatim>\<open>console.error(`Error analyzing page ${pageNumber}:`, error)\<close>\<close>
  | ErrorProcessingPage int error
      \<comment> \<open>\<^verbatim>\<open>console.error(`Error processing comprehensive analysis for page ${pageNumber}:`, error)\<close>\<close>
  | ErrorPageFailed int
      \<comment> \<open>\<^verbatim>\<open>Failed to analyze page n\<close>\<close>
  | ErrorPageNoContent int
      \<comment> \<open>\<^verbatim>\<open>No content received for page n\<close>\<close>
  | LogFound nat
      \<comment> \<open>\<^verbatim>\<open>Found n pages to analyze\<close>\<close>
  | LogRaw string json
      \<comment> \<open>\<^verbatim>\<open>console.log('Raw ... response:', content)\<close>\<close>

record response =
  ok :: bool
  status :: int
  json_body :: "string + json"
    \<comment> \<open>what \<^verbatim>\<open>response.json()\<close> settles to: a rejection reason or the parsed body\<close>

record request_init =
  prompt :: string
    \<comment> \<open>the text part of the request body\<close>
  max_output_tokens :: nat

datatype fetch_outcome = Resolved response | Rejected string

text \<open>
  The transport is the environment's answer to the \<open>n\<close>-th \<^verbatim>\<open>fetch\<close> call of a run
  (counting from 0), which may depend on the request.
\<close>

type_synonym transport = "nat \<Rightarrow> string \<Rightarrow> request_init \<Rightarrow> fetch_outcome"

record world =
  fetches :: nat
    \<comment> \<open>number of \<^verbatim>\<open>fetch\<close> calls issued so far\<close>
  sleeps :: "int list"
    \<comment> \<open>the delays awaited through \<^verbatim>\<open>setTimeout\<close>, oldest first\<close>
  console :: "console_entry list"

definition world0 :: world where
  "world0 = \<lparr>fetches = 0, sleeps = [], console = []\<rparr>"

definition do_fetch :: "transport \<Rightarrow> string \<Rightarrow> request_init \<Rightarrow> world \<Rightarrow> fetch_outcome \<times> world" where
  "do_fetch fetch url options w = (fetch (fetches w) url options, w\<lparr>fetches := fetches w + 1\<rparr>)"

definition sleep :: "int \<Rightarrow> world \<Rightarrow> world" where
  "sleep ms w = w\<lparr>sleeps := sleeps w @ [ms]\<rparr>"

definition say :: "console_entry \<Rightarrow> world \<Rightarrow> world" where
  "say entry w = w\<lparr>console := console w @ [entry]\<rparr>"

section \<open>fetchWithRetry\<close>

text \<open>How the \<^verbatim>\<open>try\<close> block of one loop iteration completes.\<close>

datatype attempt = Return response | Continue | Throw error

text \<open>
  The \<^verbatim>\<open>try\<close> block: one \<^verbatim>\<open>fetch\<close>; an ok response returns; a 5xx response warns, waits
  \<open>delay\<close>, doubles it and continues; any other response logs and throws the HTTP error;
  a rejected \<^verbatim>\<open>fetch\<close> throws its reason.  The result carries the updated \<open>delay\<close>.
\<close>

definition try_fetch ::
  "transport \<Rightarrow> string \<Rightarrow> request_init \<Rightarrow> int \<Rightarrow> int \<Rightarrow> int \<Rightarrow> world \<Rightarrow> attempt \<times> int \<times> world" where
  "try_fetch fetch url options retries i delay w =
     (case do_fetch fetch url options w of
        (Rejected reason, w1) \<Rightarrow> (Throw (Rejection reason), delay, w1)
      | (Resolved response, w1) \<Rightarrow>
          if ok response then (Return response, delay, w1)
          else if status response \<ge> 500 \<and> status response < 600 then
            (Continue, delay * 2,
             sleep delay (say (WarnServerError (status response) delay (i + 1) retries) w1))
          else
            (Throw (HttpError (status response)), delay, say (ErrorClient (status response)) w1))"

text \<open>
  The \<^verbatim>\<open>for\<close> loop.  The \<^verbatim>\<open>throw\<close> of the client-error branch sits inside the
  \<^verbatim>\<open>try\<close>, so the \<^verbatim>\<open>catch\<close> clause receives it like a rejection of \<^verbatim>\<open>fetch\<close>: it warns,
  waits, doubles the delay and falls through to the next iteration.
\<close>

function fetchWithRetry_loop ::
  "transport \<Rightarrow> string \<Rightarrow> request_init \<Rightarrow> int \<Rightarrow> int \<Rightarrow> int \<Rightarrow> world \<Rightarrow> (error + response) \<times> world" where
  "fetchWithRetry_loop fetch url options retries i delay w =
     (if i < retries then
        (case try_fetch fetch url options retries i delay w of
           (Return response, _, w1) \<Rightarrow> (Inr response, w1)
         | (Continue, delay1, w1) \<Rightarrow>
             fetchWithRetry_loop fetch url options retries (i + 1) delay1 w1
         | (Throw e, delay1, w1) \<Rightarrow>
             fetchWithRetry_loop fetch url options retries (i + 1) (delay1 * 2)
               (sleep delay1 (say (WarnNetwork delay1 (i + 1) retries e) w1)))
      else (Inl (FetchExhausted url retries), w))"
  by pat_completeness auto
termination
  by (relation "measure (\<lambda>(fetch, url, options, retries, i, delay, w). nat (retries - i))") auto

declare fetchWithRetry_loop.simps [simp del]

definition fetchWithRetry ::
  "transport \<Rightarrow> string \<Rightarrow> request_init \<Rightarrow> int \<Rightarrow> int \<Rightarrow> world \<Rightarrow> (error + response) \<times> world" where
  "fetchWithRetry fetch url options retries delay w =
     fetchWithRetry_loop fetch url options retries 0 delay w"

text \<open>The defaults of the signature: \<^verbatim>\<open>retries = 3, delay = 1000\<close>.\<close>

definition fetchWithRetry_default ::
  "transport \<Rightarrow> string \<Rightarrow> request_init \<Rightarrow> world \<Rightarrow> (error + response) \<times> world" where
  "fetchWithRetry_default fetch url options w = fetchWithRetry fetch url options 3 1000 w"

subsection \<open>Reading a run of the wrapper\<close>

text \<open>An attempt succeeds when \<^verbatim>\<open>fetch\<close> resolves with an ok response.\<close>

definition attempt_succeeds :: "fetch_outcome \<Rightarrow> bool" where
  "attempt_succeeds out = (case out of Resolved response \<Rightarrow> ok response | Rejected _ \<Rightarrow> False)"

text \<open>
  The errors the \<^verbatim>\<open>catch\<close> clause of the loop received, read off the console, where the
  clause logs each of them.
\<close>

fun caught_errors :: "console_entry list \<Rightarrow> error list" where
  "caught_errors [] = []"
| "caught_errors (WarnNetwork d i r e # es) = e # caught_errors es"
| "caught_errors (_ # es) = caught_errors es"

text \<open>The errors one attempt can raise: the HTTP error of line 55 and a rejection of \<^verbatim>\<open>fetch\<close>.\<close>

definition attempt_error :: "error \<Rightarrow> bool" where
  "attempt_error e = (case e of HttpError _ \<Rightarrow> True | Rejection _ \<Rightarrow> True | _ \<Rightarrow> False)"

subsection \<open>Example transports\<close>

text \<open>A response with the given status; \<^verbatim>\<open>ok\<close> is the 200--299 range, as \<^verbatim>\<open>fetch\<close> sets it.\<close>

definition http_response :: "int \<Rightarrow> (string + json) \<Rightarrow> response" where
  "http_response s b = \<lparr>ok = (200 \<le> s \<and> s \<le> 299), status = s, json_body = b\<rparr>"

text \<open>A transport that answers the calls of a run from a list, and is offline afterwards.\<close>

definition scripted :: "fetch_outcome list \<Rightarrow> transport" where
  "scripted outcomes n url options =
     (if n < length outcomes then outcomes ! n else Rejected ''offline'')"

definition example_options :: request_init where
  "example_options = \<lparr>prompt = ''p'', max_output_tokens = 5000\<rparr>"

definition not_found :: fetch_outcome where
  "not_found = Resolved (http_response 404 (Inl ''no body''))"

definition unavailable :: fetch_outcome where
  "unavailable = Resolved (http_response 500 (Inl ''no body''))"

definition success :: fetch_outcome where
  "success = Resolved (http_response 200 (Inr JNull))"

text \<open>Three server errors before a success.\<close>

definition three_500_then_200 :: transport where
  "three_500_then_200 = scripted [unavailable, unavailable, unavailable, success]"

text \<open>A server error, a dropped connection and a client error, then a success.\<close>

definition mixed_failures :: transport where
  "mixed_failures = scripted [unavailable, Rejected ''reset'', not_found, success]"

section \<open>safeParseJson\<close>

text \<open>
  Strings are lists of code units; a \<^typ>\<open>char\<close> stands for a code unit below 256.
  The characters the code names: backtick, line feed, double quote.
\<close>

definition backtick :: char where "backtick = CHR 0x60"
definition newline :: char where "newline = CHR 0x0A"

definition fence :: string where "fence = [backtick, backtick, backtick]"

text \<open>
  One match of the regular expression \<^verbatim>\<open>/```json\n?|\n?```/\<close> at the start of a
  string, as its length.  The first alternative is tried first and its optional line feed
  is greedy; the second alternative matches with its line feed, or without it.
\<close>

definition fence_match :: "string \<Rightarrow> nat option" where
  "fence_match s =
     (if prefix (fence @ ''json'') s then
        (if prefix (fence @ ''json'' @ [newline]) s then Some 8 else Some 7)
      else if prefix (newline # fence) s then Some 4
      else if prefix fence s then Some 3
      else None)"

text \<open>
  \<^verbatim>\<open>text.replace(/```json\n?|\n?```/g, '')\<close>: scan from the left, drop each match and
  resume after it, keep every other code unit.
\<close>

function strip_fences :: "string \<Rightarrow> string" where
  "strip_fences [] = []"
| "strip_fences (c # cs) =
     (case fence_match (c # cs) of
        Some n \<Rightarrow> strip_fences (drop n (c # cs))
      | None \<Rightarrow> c # strip_fences cs)"
  by pat_completeness auto
termination
  by (relation "measure length") (auto simp: fence_match_def split: if_splits)

text \<open>
  \<^verbatim>\<open>String.prototype.trim\<close>: white space and line terminators, of which TAB, LF, VT, FF,
  CR, SP and NBSP lie below 256.
\<close>

definition js_space :: "char \<Rightarrow> bool" where
  "js_space c = (c \<in> set [CHR 0x09, CHR 0x0A, CHR 0x0B, CHR 0x0C, CHR 0x0D, CHR 0x20, CHR 0xA0])"

definition trim :: "string \<Rightarrow> string" where
  "trim s = rev (dropWhile js_space (rev (dropWhile js_space s)))"

definition cleaned :: "string \<Rightarrow> string" where
  "cleaned text = trim (strip_fences text)"

text \<open>
  \<^verbatim>\<open>JSON.parse\<close> is a parameter: \<open>None\<close> stands for the SyntaxError it throws.  On
  failure the code writes the raw text to the console and throws a new error with a fixed
  message.
\<close>

type_synonym parser = "string \<Rightarrow> json option"

definition safeParseJson :: "parser \<Rightarrow> string \<Rightarrow> world \<Rightarrow> (error + json) \<times> world" where
  "safeParseJson JSON_parse text w =
     (let cleanedText = cleaned text in
      case JSON_parse cleanedText of
        Some v \<Rightarrow> (Inr v, w)
      | None \<Rightarrow> (Inl InvalidJson, say (ErrorParse text) w))"

text \<open>A text inside a markdown code fence: \<^verbatim>\<open>"```json\n" + s + "\n```"\<close>.\<close>

definition fenced :: "string \<Rightarrow> string" where
  "fenced s = fence @ ''json'' @ [newline] @ s @ [newline] @ fence"

section \<open>JavaScript values\<close>

text \<open>
  A value that may be \<^verbatim>\<open>undefined\<close> is a \<^typ>\<open>json option\<close>.  Truthiness, the \<^verbatim>\<open>||\<close>
  operator, property reads and optional chaining work on parsed JSON as follows.
\<close>

fun truthy :: "json \<Rightarrow> bool" where
  "truthy JNull = False"
| "truthy (JBool b) = b"
| "truthy (JNum x) = (x \<noteq> 0)"
| "truthy (JStr s) = (s \<noteq> [])"
| "truthy (JArr _) = True"
| "truthy (JObj _) = True"

definition or_else :: "json option \<Rightarrow> json \<Rightarrow> json" where
  \<comment> \<open>\<^verbatim>\<open>a || b\<close>\<close>
  "or_else a b = (case a of None \<Rightarrow> b | Some v \<Rightarrow> if truthy v then v else b)"

text \<open>
  \<^verbatim>\<open>v.name\<close> on a value other than \<^verbatim>\<open>null\<close>, for the names the services read
  (\<^verbatim>\<open>candidates, content, parts, text, keyPoints, studyPoints, summary, tnpscRelevance,
  tnpscCategories, type, options, answer, matchingPairs\<close>): an object answers with its own
  property, where a later binding of a key overrides an earlier one; arrays, strings,
  numbers and booleans have none of these properties.
\<close>

fun get_prop :: "json \<Rightarrow> string \<Rightarrow> json option" where
  "get_prop (JObj kvs) name = map_of (rev kvs) name"
| "get_prop _ name = None"

text \<open>\<^verbatim>\<open>v[0]\<close> on a value other than \<^verbatim>\<open>null\<close>.\<close>

fun get_index0 :: "json \<Rightarrow> json option" where
  "get_index0 (JArr xs) = (case xs of [] \<Rightarrow> None | x # _ \<Rightarrow> Some x)"
| "get_index0 (JStr s) = (case s of [] \<Rightarrow> None | c # _ \<Rightarrow> Some (JStr [c]))"
| "get_index0 (JObj kvs) = map_of (rev kvs) ''0''"
| "get_index0 _ = None"

definition chain :: "json option \<Rightarrow> (json \<Rightarrow> json option) \<Rightarrow> json option" where
  \<comment> \<open>\<^verbatim>\<open>a?.b\<close>: \<^verbatim>\<open>undefined\<close> when \<open>a\<close> is \<^verbatim>\<open>null\<close> or \<^verbatim>\<open>undefined\<close>\<close>
  "chain a read = (case a of None \<Rightarrow> None | Some JNull \<Rightarrow> None | Some v \<Rightarrow> read v)"

definition is_array :: "json \<Rightarrow> bool" where
  \<comment> \<open>\<^verbatim>\<open>Array.isArray\<close>\<close>
  "is_array v = (case v of JArr _ \<Rightarrow> True | _ \<Rightarrow> False)"

text \<open>
  \<^verbatim>\<open>...v\<close> in an argument list: the elements of an array, the characters of a string, a
  TypeError for a value that is not iterable.
\<close>

fun spread :: "json \<Rightarrow> error + json list" where
  "spread (JArr xs) = Inr xs"
| "spread (JStr s) = Inr (map (\<lambda>c. JStr [c]) s)"
| "spread _ = Inl (TypeError ''Spread syntax requires an iterable'')"

text \<open>
  \<^verbatim>\<open>...v\<close> in an object literal: the own enumerable properties of an object, the indexed
  elements of an array or string, nothing for any other value.
\<close>

fun own_properties :: "json \<Rightarrow> (string \<times> json) list" where
  "own_properties (JObj kvs) = kvs"
| "own_properties (JArr xs) = map (\<lambda>i. (show_nat i, xs ! i)) [0..<length xs]"
| "own_properties (JStr s) = map (\<lambda>i. (show_nat i, JStr [s ! i])) [0..<length s]"
| "own_properties _ = []"

text \<open>\<^verbatim>\<open>xs.map(f)\<close> with a callback that may throw: the first throw ends the map.\<close>

fun map_throwing :: "('a \<Rightarrow> error + 'b) \<Rightarrow> 'a list \<Rightarrow> error + 'b list" where
  "map_throwing f [] = Inr []"
| "map_throwing f (x # xs) =
     (case f x of
        Inl e \<Rightarrow> Inl e
      | Inr y \<Rightarrow> (case map_throwing f xs of Inl e \<Rightarrow> Inl e | Inr ys \<Rightarrow> Inr (y # ys)))"

text \<open>\<^verbatim>\<open>xs.join(sep)\<close> on an array of strings.\<close>

fun join :: "string \<Rightarrow> string list \<Rightarrow> string" where
  "join sep [] = []"
| "join sep [x] = x"
| "join sep (x # y # ys) = x @ sep @ join sep (y # ys)"

text \<open>
  \<^verbatim>\<open>[...new Set(xs)]\<close>: the first occurrence of each value, in order.  Primitives are equal
  by value; two arrays or objects out of a parse are never the same object.
\<close>

fun same_value :: "json \<Rightarrow> json \<Rightarrow> bool" where
  "same_value (JArr _) _ = False"
| "same_value (JObj _) _ = False"
| "same_value a b = (a = b)"

fun set_values :: "json list \<Rightarrow> json list" where
  "set_values [] = []"
| "set_values (x # xs) = x # set_values (filter (\<lambda>y. \<not> same_value x y) xs)"

section \<open>The service requests\<close>

definition GEMINI_API_URL :: string where
  "GEMINI_API_URL =
     ''https://generativelanguage.googleapis.com/v1beta/models/gemini-1.5-flash-latest:generateContent''"

text \<open>
  The platform a service function runs on: the transport, \<^verbatim>\<open>JSON.parse\<close>, and the value
  of \<^verbatim>\<open>GEMINI_API_KEY\<close> (the environment variable \<^verbatim>\<open>VITE_GEMINI_API_KEY\<close>, or else the
  key written into the file).
\<close>

record platform =
  fetch_of :: transport
  parse_of :: parser
  api_key_of :: string

definition request_url :: "platform \<Rightarrow> string" where
  \<comment> \<open>\<^verbatim>\<open>`${GEMINI_API_URL}?key=${GEMINI_API_KEY}`\<close>\<close>
  "request_url p = GEMINI_API_URL @ ''?key='' @ api_key_of p"

datatype language = English | Tamil

text \<open>\<^verbatim>\<open>data.candidates?.[0]?.content?.parts?.[0]?.text\<close>; only \<open>data\<close> itself is read unguarded.\<close>

definition candidate_text :: "json \<Rightarrow> error + json option" where
  "candidate_text data =
     (case data of
        JNull \<Rightarrow> Inl (TypeError ''Cannot read properties of null (reading candidates)'')
      | _ \<Rightarrow>
          Inr (chain (chain (chain (chain (chain (get_prop data ''candidates'') get_index0)
                 (\<lambda>v. get_prop v ''content'')) (\<lambda>v. get_prop v ''parts'')) get_index0)
                 (\<lambda>v. get_prop v ''text'')))"

text \<open>
  \<^verbatim>\<open>safeParseJson(content)\<close> with \<open>content\<close> of type \<^verbatim>\<open>any\<close>: only a string has the
  \<^verbatim>\<open>replace\<close> method that the first line of safeParseJson calls.
\<close>

definition safeParseJson_any :: "parser \<Rightarrow> json \<Rightarrow> world \<Rightarrow> (error + json) \<times> world" where
  "safeParseJson_any JSON_parse content w =
     (case content of
        JStr text \<Rightarrow> safeParseJson JSON_parse text w
      | _ \<Rightarrow> (Inl (TypeError ''text.replace is not a function''), w))"

section \<open>A parser for JSON\<close>

text \<open>
  An instance of the parser parameter for the examples: the JSON grammar, with numbers
  read as reals (no rounding) and \<^verbatim>\<open>\u\<close> escapes accepted below 256.  The fuel bounds
  the nesting and is set from the length of the text.
\<close>

definition quote :: char where "quote = CHR 0x22"
definition backslash :: char where "backslash = CHR 0x5C"

definition json_space :: "char \<Rightarrow> bool" where
  "json_space c = (c \<in> set [CHR 0x20, CHR 0x09, CHR 0x0A, CHR 0x0D])"

definition skip_ws :: "string \<Rightarrow> string" where
  "skip_ws s = dropWhile json_space s"

definition is_digit :: "char \<Rightarrow> bool" where
  "is_digit c = (c \<in> set ''0123456789'')"

definition digit_value :: "char \<Rightarrow> nat" where
  "digit_value c = of_char c - 48"

definition digits_value :: "string \<Rightarrow> nat" where
  "digits_value ds = foldl (\<lambda>acc c. acc * 10 + digit_value c) 0 ds"

definition hex_value :: "char \<Rightarrow> nat option" where
  "hex_value c =
     (if is_digit c then Some (of_char c - 48)
      else if c \<in> set ''abcdef'' then Some (of_char c - 87)
      else if c \<in> set ''ABCDEF'' then Some (of_char c - 55)
      else None)"

definition unescape :: "char \<Rightarrow> char option" where
  "unescape e =
     map_of [(quote, quote), (backslash, backslash), (CHR ''/'', CHR ''/''),
             (CHR ''b'', CHR 0x08), (CHR ''f'', CHR 0x0C), (CHR ''n'', CHR 0x0A),
             (CHR ''r'', CHR 0x0D), (CHR ''t'', CHR 0x09)] e"

text \<open>The characters of a string literal after its opening quote, and the text after it.\<close>

fun string_body :: "string \<Rightarrow> (string \<times> string) option" where
  "string_body [] = None"
| "string_body (c # cs) =
     (if c = quote then Some ([], cs)
      else if c = backslash then
        (case cs of
           [] \<Rightarrow> None
         | e # rest \<Rightarrow>
             if e = CHR ''u'' then
               (case those (map hex_value (take 4 rest)) of
                  Some [h3, h2, h1, h0] \<Rightarrow>
                    if h3 = 0 \<and> h2 = 0 then
                      map_option (\<lambda>(s, r). (char_of (16 * h1 + h0) # s, r))
                        (string_body (drop 4 rest))
                    else None
                | _ \<Rightarrow> None)
             else
               (case unescape e of
                  None \<Rightarrow> None
                | Some ch \<Rightarrow> map_option (\<lambda>(s, r). (ch # s, r)) (string_body rest)))
      else if of_char c < (32 :: nat) then None
      else map_option (\<lambda>(s, r). (c # s, r)) (string_body cs))"

text \<open>The exponent part of a number, if there is one: its value and the text after it.\<close>

definition parse_exponent :: "string \<Rightarrow> (int \<times> string) option" where
  "parse_exponent s =
     (case s of
        [] \<Rightarrow> Some (0, s)
      | c # r \<Rightarrow>
          if c = CHR ''e'' \<or> c = CHR ''E'' then
            (let neg = (case r of [] \<Rightarrow> False | d # _ \<Rightarrow> d = CHR ''-'');
                 r1 = (case r of [] \<Rightarrow> r | d # ds \<Rightarrow> if d = CHR ''-'' \<or> d = CHR ''+'' then ds else r);
                 ds = takeWhile is_digit r1
             in if ds = [] then None
                else Some ((if neg then - int (digits_value ds) else int (digits_value ds)),
                           dropWhile is_digit r1))
          else Some (0, s))"

definition parse_number :: "string \<Rightarrow> (real \<times> string) option" where
  "parse_number s =
     (let neg = (case s of [] \<Rightarrow> False | c # _ \<Rightarrow> c = CHR ''-'');
          s1 = (if neg then tl s else s);
          ip = takeWhile is_digit s1;
          s2 = dropWhile is_digit s1;
          dot = (case s2 of [] \<Rightarrow> False | c # _ \<Rightarrow> c = CHR ''.'');
          fp = (if dot then takeWhile is_digit (tl s2) else []);
          s3 = (if dot then dropWhile is_digit (tl s2) else s2)
      in if ip = [] \<or> (1 < length ip \<and> hd ip = CHR ''0'') \<or> (dot \<and> fp = []) then None
         else
           (case parse_exponent s3 of
              None \<Rightarrow> None
            | Some (ex, s4) \<Rightarrow>
                let m = real (digits_value ip) + real (digits_value fp) / 10 ^ length fp;
                    x = (if 0 \<le> ex then m * 10 ^ nat ex else m / 10 ^ nat (- ex))
                in Some ((if neg then - x else x), s4)))"

fun parse_value :: "nat \<Rightarrow> string \<Rightarrow> (json \<times> string) option"
  and parse_elements :: "nat \<Rightarrow> string \<Rightarrow> (json list \<times> string) option"
  and parse_members :: "nat \<Rightarrow> string \<Rightarrow> ((string \<times> json) list \<times> string) option"
where
  "parse_value 0 s = None"
| "parse_value (Suc n) s =
     (case skip_ws s of
        [] \<Rightarrow> None
      | c # cs \<Rightarrow>
          if c = CHR ''{'' then
            (case skip_ws cs of
               [] \<Rightarrow> None
             | d # ds \<Rightarrow>
                 if d = CHR ''}'' then Some (JObj [], ds)
                 else map_option (\<lambda>(kvs, r). (JObj kvs, r)) (parse_members n cs))
          else if c = CHR ''['' then
            (case skip_ws cs of
               [] \<Rightarrow> None
             | d # ds \<Rightarrow>
                 if d = CHR '']'' then Some (JArr [], ds)
                 else map_option (\<lambda>(vs, r). (JArr vs, r)) (parse_elements n cs))
          else if c = quote then map_option (\<lambda>(str, r). (JStr str, r)) (string_body cs)
          else if prefix ''true'' (c # cs) then Some (JBool True, drop 4 (c # cs))
          else if prefix ''false'' (c # cs) then Some (JBool False, drop 5 (c # cs))
          else if prefix ''null'' (c # cs) then Some (JNull, drop 4 (c # cs))
          else map_option (\<lambda>(x, r). (JNum x, r)) (parse_number (c # cs)))"
| "parse_elements 0 s = None"
| "parse_elements (Suc n) s =
     (case parse_value n s of
        None \<Rightarrow> None
      | Some (v, r) \<Rightarrow>
          (case skip_ws r of
             [] \<Rightarrow> None
           | d # ds \<Rightarrow>
               if d = CHR '','' then map_option (\<lambda>(vs, r'). (v # vs, r')) (parse_elements n ds)
               else if d = CHR '']'' then Some ([v], ds)
               else None))"
| "parse_members 0 s = None"
| "parse_members (Suc n) s =
     (case skip_ws s of
        [] \<Rightarrow> None
      | q # qs \<Rightarrow>
          if q \<noteq> quote then None
          else
            (case string_body qs of
               None \<Rightarrow> None
             | Some (k, r1) \<Rightarrow>
                 (case skip_ws r1 of
                    [] \<Rightarrow> None
                  | c # r2 \<Rightarrow>
                      if c \<noteq> CHR '':'' then None
                      else
                        (case parse_value n r2 of
                           None \<Rightarrow> None
                         | Some (v, r3) \<Rightarrow>
                             (case skip_ws r3 of
                                [] \<Rightarrow> None
                              | d # ds \<Rightarrow>
                                  if d = CHR '','' then
                                    map_option (\<lambda>(kvs, r'). ((k, v) # kvs, r'))
                                      (parse_members n ds)
                                  else if d = CHR ''}'' then Some ([(k, v)], ds)
                                  else None)))))"

definition json_parser :: parser where
  "json_parser s =
     (case parse_value (Suc (length s)) s of
        None \<Rightarrow> None
      | Some (v, r) \<Rightarrow> if skip_ws r = [] then Some v else None)"

section \<open>analyzeIndividualPage\<close>

text \<open>What analyzeIndividualPage returns; the fields hold whatever the reply contained.\<close>

record page_analysis =
  pageNumber :: int
  keyPoints :: json
  studyPoints :: json
  summary :: json
  tnpscRelevance :: json

definition individual_page_prompt :: string where
  "individual_page_prompt =
     ''You are an expert TNPSC content analyst... [Original prompt text] ...directly convertible into high-scoring exam answers.''"

text \<open>
  The body of the \<^verbatim>\<open>try\<close> block: one call through fetchWithRetry, the JSON body of the
  response, the text of the first candidate, the parsed analysis with its defaults.
  In this file the prompt is a constant: neither the page text nor the language reaches
  the request.
\<close>

definition analyzeIndividualPage_body ::
  "platform \<Rightarrow> string \<Rightarrow> int \<Rightarrow> language \<Rightarrow> world \<Rightarrow> (error + page_analysis) \<times> world" where
  "analyzeIndividualPage_body p textContent number outputLanguage w =
     (case fetchWithRetry_default (fetch_of p) (request_url p)
             \<lparr>prompt = individual_page_prompt, max_output_tokens = 5000\<rparr> w of
        (Inl e, w1) \<Rightarrow> (Inl e, w1)
      | (Inr response, w1) \<Rightarrow>
          (case json_body response of
             Inl reason \<Rightarrow> (Inl (Rejection reason), w1)
           | Inr data \<Rightarrow>
               (case candidate_text data of
                  Inl e \<Rightarrow> (Inl e, w1)
                | Inr None \<Rightarrow> (Inl NoContent, w1)
                | Inr (Some content) \<Rightarrow>
                    if \<not> truthy content then (Inl NoContent, w1)
                    else
                      (case safeParseJson_any (parse_of p) content w1 of
                         (Inl e, w2) \<Rightarrow> (Inl e, w2)
                       | (Inr JNull, w2) \<Rightarrow>
                           (Inl (TypeError ''Cannot read properties of null (reading keyPoints)''), w2)
                       | (Inr analysis, w2) \<Rightarrow>
                           (Inr \<lparr>pageNumber = number,
                                 keyPoints = or_else (get_prop analysis ''keyPoints'') (JArr []),
                                 studyPoints = or_else (get_prop analysis ''studyPoints'') (JArr []),
                                 summary = or_else (get_prop analysis ''summary'') (JStr []),
                                 tnpscRelevance =
                                   or_else (get_prop analysis ''tnpscRelevance'') (JStr [])\<rparr>,
                            w2)))))"

text \<open>The \<^verbatim>\<open>catch\<close> clause logs the error and throws it again.\<close>

definition analyzeIndividualPage ::
  "platform \<Rightarrow> string \<Rightarrow> int \<Rightarrow> language \<Rightarrow> world \<Rightarrow> (error + page_analysis) \<times> world" where
  "analyzeIndividualPage p textContent number outputLanguage w =
     (case analyzeIndividualPage_body p textContent number outputLanguage w of
        (Inl e, w1) \<Rightarrow> (Inl e, say (ErrorAnalyzingPage number e) w1)
      | (Inr analysis, w1) \<Rightarrow> (Inr analysis, w1))"

section \<open>analyzePdfContentComprehensive\<close>

text \<open>
  The page expression
  \<^verbatim>\<open>/==Start of OCR for page (\d+)==([\s\S]*?)==End of OCR for page \1==/g\<close>.
  At one position: the start marker, the longest run of digits (a shorter run would be
  followed by a digit, not by \<^verbatim>\<open>==\<close>), \<^verbatim>\<open>==\<close>, then the shortest text after which the
  end marker with the same digits follows.
\<close>

definition start_marker :: string where "start_marker = ''==Start of OCR for page ''"
definition end_marker :: string where "end_marker = ''==End of OCR for page ''"

text \<open>The text in front of the first occurrence of a (non-empty) marker, if it occurs.\<close>

fun before_marker :: "string \<Rightarrow> string \<Rightarrow> string option" where
  "before_marker marker [] = None"
| "before_marker marker (c # cs) =
     (if prefix marker (c # cs) then Some []
      else map_option ((#) c) (before_marker marker cs))"

text \<open>A match at the start of the text: group 1, group 2 and the length of the match.\<close>

definition page_match :: "string \<Rightarrow> (string \<times> string \<times> nat) option" where
  "page_match s =
     (if prefix start_marker s then
        (let after = drop (length start_marker) s;
             digits = takeWhile is_digit after;
             tail = dropWhile is_digit after;
             closing = end_marker @ digits @ ''==''
         in if digits \<noteq> [] \<and> prefix ''=='' tail then
              (case before_marker closing (drop 2 tail) of
                 None \<Rightarrow> None
               | Some body \<Rightarrow>
                   Some (digits, body,
                         length start_marker + length digits + 2 + length body + length closing))
            else None)
      else None)"

text \<open>\<^verbatim>\<open>Array.from(textContent.matchAll(pageRegex))\<close>, each match as (group 1, group 2).\<close>

function page_matches :: "string \<Rightarrow> (string \<times> string) list" where
  "page_matches [] = []"
| "page_matches (c # cs) =
     (case page_match (c # cs) of
        Some (digits, body, n) \<Rightarrow> (digits, body) # page_matches (drop n (c # cs))
      | None \<Rightarrow> page_matches cs)"
  by pat_completeness auto
termination
  by (relation "measure length")
     (auto simp: page_match_def Let_def start_marker_def split: if_splits option.splits)

text \<open>\<^verbatim>\<open>parseInt(match[1], 10)\<close> on the digits of group 1.\<close>

definition parseInt10 :: "string \<Rightarrow> int" where
  "parseInt10 ds = int (digits_value ds)"

text \<open>
  The three arrays the loop fills: \<^verbatim>\<open>pageAnalyses\<close>, \<^verbatim>\<open>allKeyPoints\<close>, \<^verbatim>\<open>allCategories\<close>.
  (Where a local variable of the source has the name of a record field, the model calls it
  \<open>number\<close> for \<^verbatim>\<open>pageNumber\<close> and \<open>analyses\<close> for \<^verbatim>\<open>pageAnalyses\<close>.)
\<close>

type_synonym collected = "page_analysis list \<times> json list \<times> json list"

text \<open>
  One iteration of \<^verbatim>\<open>for (const match of pageMatches)\<close>.  A sparse page continues at
  once.  Otherwise the inner \<^verbatim>\<open>try\<close> runs: the push of \<^verbatim>\<open>{ pageNumber, ...analysis }\<close> is
  the analysis itself (its own \<^verbatim>\<open>pageNumber\<close> is the same number); the key points are
  spread into \<^verbatim>\<open>allKeyPoints\<close>; the returned analysis has no \<^verbatim>\<open>tnpscCategories\<close>
  property, so the guarded push to \<^verbatim>\<open>allCategories\<close> never runs.  Whatever the
  \<^verbatim>\<open>try\<close> throws is logged by the \<^verbatim>\<open>catch\<close>, and the 200 ms pause follows either way.
\<close>

definition process_page ::
  "platform \<Rightarrow> language \<Rightarrow> string \<times> string \<Rightarrow> collected \<times> world \<Rightarrow> collected \<times> world" where
  "process_page p outputLanguage match state =
     (case state of
        ((analyses, allKeyPoints, allCategories), w) \<Rightarrow>
          let number = parseInt10 (fst match);
              pageContent = trim (snd match)
          in if length pageContent < 50 then state
             else
               (let (arrays, w2) =
                      (case analyzeIndividualPage p pageContent number outputLanguage w of
                         (Inl e, w1) \<Rightarrow>
                           ((analyses, allKeyPoints, allCategories),
                            say (ErrorProcessingPage number e) w1)
                       | (Inr analysis, w1) \<Rightarrow>
                           (case spread (or_else (Some (keyPoints analysis)) (JArr [])) of
                              Inl e \<Rightarrow>
                                ((analyses @ [analysis], allKeyPoints, allCategories),
                                 say (ErrorProcessingPage number e) w1)
                            | Inr points \<Rightarrow>
                                ((analyses @ [analysis], allKeyPoints @ points,
                                  allCategories), w1)))
                in (arrays, sleep 200 w2)))"

fun process_pages ::
  "platform \<Rightarrow> language \<Rightarrow> (string \<times> string) list \<Rightarrow> collected \<times> world \<Rightarrow> collected \<times> world" where
  "process_pages p outputLanguage [] state = state"
| "process_pages p outputLanguage (match # matches) state =
     process_pages p outputLanguage matches (process_page p outputLanguage match state)"

record comprehensive =
  pageAnalyses :: "page_analysis list"
  overallSummary :: string
  totalKeyPoints :: "json list"
  tnpscCategories :: "json list"

text \<open>The \<^verbatim>\<open>return\<close> statement: the aggregate built from the three arrays.\<close>

definition aggregate :: "collected \<times> world \<Rightarrow> (error + comprehensive) \<times> world" where
  "aggregate state =
     (case state of
        ((analyses, allKeyPoints, allCategories), w) \<Rightarrow>
          (Inr \<lparr>pageAnalyses = analyses,
                overallSummary =
                  ''Comprehensive analysis of '' @ show_nat (length analyses)
                  @ '' pages with '' @ show_nat (length allKeyPoints)
                  @ '' total key points.'',
                totalKeyPoints = allKeyPoints,
                tnpscCategories = set_values allCategories\<rparr>,
           w))"

text \<open>
  The whole function.  Nothing outside the inner \<^verbatim>\<open>try\<close> can throw, so the outer
  \<^verbatim>\<open>catch\<close> is never entered and the function always returns its aggregate.
\<close>

definition analyzePdfContentComprehensive ::
  "platform \<Rightarrow> string \<Rightarrow> language \<Rightarrow> world \<Rightarrow> (error + comprehensive) \<times> world" where
  "analyzePdfContentComprehensive p textContent outputLanguage w =
     (let pageMatches = page_matches textContent;
          w0 = say (LogFound (length pageMatches)) w
      in aggregate (process_pages p outputLanguage pageMatches (([], [], []), w0)))"

subsection \<open>Reading a run of the loop\<close>

text \<open>A segment the loop skips: its trimmed text has fewer than 50 code units.\<close>

definition sparse :: "string \<times> string \<Rightarrow> bool" where
  "sparse match = (length (trim (snd match)) < 50)"

text \<open>
  The model call the loop issues for segment \<open>j\<close> of \<open>matches\<close>: analyzeIndividualPage on
  its trimmed text and page number, in the world the loop has reached after the segments
  before it.
\<close>

definition page_call ::
  "platform \<Rightarrow> language \<Rightarrow> (string \<times> string) list \<Rightarrow> world \<Rightarrow> nat \<Rightarrow> error + page_analysis" where
  "page_call p outputLanguage matches w0 j =
     fst (analyzeIndividualPage p (trim (snd (matches ! j))) (parseInt10 (fst (matches ! j)))
            outputLanguage
            (snd (process_pages p outputLanguage (take j matches) (([], [], []), w0))))"

text \<open>
  The analyses that the model calls of a run returned, in segment order: one for each
  segment that is not sparse and whose call did not raise.
\<close>

definition returned_analyses ::
  "platform \<Rightarrow> language \<Rightarrow> (string \<times> string) list \<Rightarrow> world \<Rightarrow> page_analysis list" where
  "returned_analyses p outputLanguage matches w0 =
     map (\<lambda>j. projr (page_call p outputLanguage matches w0 j))
       (filter (\<lambda>j. \<not> sparse (matches ! j) \<and> \<not> isl (page_call p outputLanguage matches w0 j))
          [0..<length matches])"

text \<open>The model call of one iteration, for a segment and the world it starts in.\<close>

definition call_of ::
  "platform \<Rightarrow> language \<Rightarrow> string \<times> string \<Rightarrow> world \<Rightarrow> (error + page_analysis) \<times> world" where
  "call_of p outputLanguage match w =
     analyzeIndividualPage p (trim (snd match)) (parseInt10 (fst match)) outputLanguage w"

text \<open>
  The key points a page analysis contributes: the elements of its \<^verbatim>\<open>keyPoints\<close> array
  (for a string, its characters, as the spread yields them); nothing where the value is
  not iterable, since the spread then throws before anything is pushed.
\<close>

definition key_point_list :: "page_analysis \<Rightarrow> json list" where
  "key_point_list analysis =
     (case spread (keyPoints analysis) of Inl _ \<Rightarrow> [] | Inr points \<Rightarrow> points)"

section \<open>generateQuestions\<close>

text \<open>The fields of \<^verbatim>\<open>AnalysisResult\<close> that generateQuestions reads, as typed.\<close>

record analysis_result =
  result_keyPoints :: "string list"
  result_summary :: string
  result_tnpscRelevance :: string

record question_result =
  questions :: "json list"
  questions_summary :: string
  questions_keyPoints :: "string list"
  difficulty :: string
  totalQuestions :: nat

definition questions_prompt :: string where
  "questions_prompt =
     ''You are an expert TNPSC question paper setter... [Original prompt text] ...Maintain TNPSC exam standards and patterns.''"

text \<open>
  The callback of \<^verbatim>\<open>questions.map\<close>: the properties of \<open>q\<close>, then the four normalised
  ones, which override.  Reading \<^verbatim>\<open>q.type\<close> of \<^verbatim>\<open>null\<close> throws.
\<close>

definition format_question :: "json \<Rightarrow> error + json" where
  "format_question q =
     (case q of
        JNull \<Rightarrow> Inl (TypeError ''Cannot read properties of null (reading type)'')
      | _ \<Rightarrow>
          Inr (JObj (own_properties q @
            [(''type'', or_else (get_prop q ''type'') (JStr ''mcq'')),
             (''options'',
                (case get_prop q ''options'' of
                   Some (JArr options) \<Rightarrow> JArr options
                 | _ \<Rightarrow> JArr [JStr ''A'', JStr ''B'', JStr ''C'', JStr ''D''])),
             (''answer'', or_else (get_prop q ''answer'') (JStr ''A'')),
             (''matchingPairs'', or_else (get_prop q ''matchingPairs'') JNull)])))"

text \<open>\<^verbatim>\<open>Array.isArray(questions) ? questions.map(...) : []\<close>\<close>

definition format_questions :: "json \<Rightarrow> error + json list" where
  "format_questions parsed =
     (case parsed of
        JArr qs \<Rightarrow> map_throwing format_question qs
      | _ \<Rightarrow> Inr [])"

text \<open>
  The parsed payload of one request: fetchWithRetry, the JSON body, the candidate text,
  the log line, safeParseJson (lines 149--164).
\<close>

definition questions_payload :: "platform \<Rightarrow> world \<Rightarrow> (error + json) \<times> world" where
  "questions_payload p w =
     (case fetchWithRetry_default (fetch_of p) (request_url p)
             \<lparr>prompt = questions_prompt, max_output_tokens = 5000\<rparr> w of
        (Inl e, w1) \<Rightarrow> (Inl e, w1)
      | (Inr response, w1) \<Rightarrow>
          (case json_body response of
             Inl reason \<Rightarrow> (Inl (Rejection reason), w1)
           | Inr data \<Rightarrow>
               (case candidate_text data of
                  Inl e \<Rightarrow> (Inl e, w1)
                | Inr None \<Rightarrow> (Inl NoContent, w1)
                | Inr (Some content) \<Rightarrow>
                    if \<not> truthy content then (Inl NoContent, w1)
                    else safeParseJson_any (parse_of p) content
                           (say (LogRaw ''Raw questions response:'' content) w1))))"

text \<open>The body of the \<^verbatim>\<open>try\<close> block: the payload, the formatted questions, the result.\<close>

definition generateQuestions_body ::
  "platform \<Rightarrow> analysis_result list \<Rightarrow> string \<Rightarrow> language \<Rightarrow> world
     \<Rightarrow> (error + question_result) \<times> world" where
  "generateQuestions_body p analysisResults difficultyLevel outputLanguage w =
     (let combinedContent =
            map (\<lambda>result. (join [newline] (result_keyPoints result), result_summary result,
                            result_tnpscRelevance result)) analysisResults
      in case questions_payload p w of
           (Inl e, w1) \<Rightarrow> (Inl e, w1)
         | (Inr parsed, w1) \<Rightarrow>
             (case format_questions parsed of
                Inl e \<Rightarrow> (Inl e, w1)
              | Inr formattedQuestions \<Rightarrow>
                  (Inr \<lparr>questions = formattedQuestions,
                        questions_summary = join '' '' (map (\<lambda>(k, s, r). s) combinedContent),
                        questions_keyPoints = concat (map result_keyPoints analysisResults),
                        difficulty = difficultyLevel,
                        totalQuestions = length formattedQuestions\<rparr>,
                   w1)))"

definition generateQuestions ::
  "platform \<Rightarrow> analysis_result list \<Rightarrow> string \<Rightarrow> language \<Rightarrow> world
     \<Rightarrow> (error + question_result) \<times> world" where
  "generateQuestions p analysisResults difficultyLevel outputLanguage w =
     (case generateQuestions_body p analysisResults difficultyLevel outputLanguage w of
        (Inl e, w1) \<Rightarrow> (Inl e, say (ErrorIn ''generateQuestions'' e) w1)
      | (Inr result, w1) \<Rightarrow> (Inr result, w1))"

text \<open>
  A well-formed question: a truthy \<^verbatim>\<open>type\<close>, an array as \<^verbatim>\<open>options\<close>, a truthy
  \<^verbatim>\<open>answer\<close>, and a \<^verbatim>\<open>matchingPairs\<close> property (which may be \<^verbatim>\<open>null\<close>).
\<close>

definition well_formed_question :: "json \<Rightarrow> bool" where
  "well_formed_question q =
     ((case get_prop q ''type'' of Some v \<Rightarrow> truthy v | None \<Rightarrow> False)
      \<and> (case get_prop q ''options'' of Some v \<Rightarrow> is_array v | None \<Rightarrow> False)
      \<and> (case get_prop q ''answer'' of Some v \<Rightarrow> truthy v | None \<Rightarrow> False)
      \<and> get_prop q ''matchingPairs'' \<noteq> None)"

section \<open>Example platform\<close>

definition example_platform :: "transport \<Rightarrow> platform" where
  "example_platform t = \<lparr>fetch_of = t, parse_of = json_parser, api_key_of = ''key''\<rparr>"

text \<open>A 200 response whose first candidate carries the given text.\<close>

definition gemini_reply :: "string \<Rightarrow> fetch_outcome" where
  "gemini_reply text =
     Resolved (http_response 200
       (Inr (JObj [(''candidates'',
          JArr [JObj [(''content'', JObj [(''parts'', JArr [JObj [(''text'', JStr text)]])])]])])))"

text \<open>An OCR text: each page between its start and end marker.\<close>

definition ocr_page :: "string \<Rightarrow> string \<Rightarrow> string" where
  "ocr_page n body = start_marker @ n @ ''=='' @ body @ end_marker @ n @ ''==''"

definition five_segments :: "(string \<times> string) list" where
  "five_segments =
     [(''1'', ''The Constitution of India came into force in 1950.''),
      (''2'', ''  The Preamble declares India a sovereign republic...  ''),
      (''3'', ''Article 21 protects life and personal liberty. ....''),
      (''4'', ''The Rajya Sabha is the permanent upper house. .....''),
      (''5'', ''The Finance Commission sits under Article 280. ....'')]"

definition five_pages :: string where
  "five_pages =
     ''scan '' @ concat (map (\<lambda>(n, body). ocr_page n body @ [newline]) five_segments)"

text \<open>Five replies, the third of which is not JSON.\<close>

definition five_replies :: transport where
  "five_replies = scripted
     [gemini_reply ''{\"keyPoints\": [\"k1a\", \"k1b\"], \"summary\": \"s1\"}'',
      gemini_reply (fenced ''{\"keyPoints\": [\"k2\"]}''),
      gemini_reply ''{oops'',
      gemini_reply ''{\"keyPoints\": [\"k4\"]}'',
      gemini_reply ''{\"summary\": \"s5\"}'']"

text \<open>Three pages, the second with too little text.\<close>

definition short_segment :: "string \<times> string" where
  "short_segment = (''7'', ''   page intentionally left blank   '')"

definition three_pages :: string where
  "three_pages =
     ocr_page (fst (five_segments ! 0)) (snd (five_segments ! 0))
     @ ocr_page (fst short_segment) (snd short_segment)
     @ ocr_page (fst (five_segments ! 1)) (snd (five_segments ! 1))"

text \<open>
  A reply with two questions, the second without a type, with options that are no array
  and with an empty answer; and a reply whose payload is an object, not an array.
\<close>

definition questions_text :: string where
  "questions_text =
     ''[{\"question\": \"Q1\", \"type\": \"assertion_reason\", \"options\": [\"w\", \"x\"], \"answer\": \"B\"}, {\"question\": \"Q2\", \"options\": \"none\", \"answer\": \"\"}]''"

definition questions_platform :: platform where
  "questions_platform = example_platform (scripted [gemini_reply (fenced questions_text)])"

definition object_platform :: platform where
  "object_platform = example_platform (scripted [gemini_reply ''{\"questions\": []}''])"

definition two_results :: "analysis_result list" where
  "two_results =
     [\<lparr>result_keyPoints = [''a'', ''b''], result_summary = ''s1'', result_tnpscRelevance = ''r1''\<rparr>,
      \<lparr>result_keyPoints = [''c''], result_summary = ''s2'', result_tnpscRelevance = ''r2''\<rparr>]"

section \<open>The service of geminiService.ts\<close>

text \<open>
  The file \<^verbatim>\<open>src/services/geminiService.ts\<close> holds the same service functions without
  the helpers: each calls \<^verbatim>\<open>fetch\<close> once, cleans the text with the same replace and trim,
  and calls \<^verbatim>\<open>JSON.parse\<close> unguarded, against the same URL.  Their names carry the
  suffix \<open>_direct\<close> here.  The prompt texts of this file interpolate their arguments; the
  templates are parameters, since only the request they end up in matters below.
\<close>

record templates =
  questions_template :: "(string \<times> string \<times> string) list \<Rightarrow> string \<Rightarrow> string \<Rightarrow> string"
    \<comment> \<open>lines 134--206, from \<^verbatim>\<open>combinedContent\<close>, \<^verbatim>\<open>difficulty\<close>, \<^verbatim>\<open>languageInstruction\<close>\<close>
  page_template :: "string \<Rightarrow> int \<Rightarrow> string \<Rightarrow> string"
    \<comment> \<open>lines 432--466, from \<^verbatim>\<open>languageInstruction\<close>, \<^verbatim>\<open>pageNumber\<close>, the first 4000 code
        units of \<^verbatim>\<open>pageContent\<close>\<close>

subsection \<open>generateQuestions\<close>

definition format_question_direct :: "json \<Rightarrow> error + json" where
  "format_question_direct q =
     (case q of
        JNull \<Rightarrow> Inl (TypeError ''Cannot read properties of null (reading type)'')
      | _ \<Rightarrow>
          Inr (JObj (own_properties q @
            [(''type'', or_else (get_prop q ''type'') (JStr ''mcq'')),
             (''options'',
                (case get_prop q ''options'' of
                   Some (JArr options) \<Rightarrow> JArr options
                 | _ \<Rightarrow> JArr [JStr ''Option A'', JStr ''Option B'', JStr ''Option C'',
                              JStr ''Option D''])),
             (''answer'', or_else (get_prop q ''answer'') (JStr ''A'')),
             (''matchingPairs'', or_else (get_prop q ''matchingPairs'') JNull)])))"

text \<open>
  \<^verbatim>\<open>questions.map(...)\<close> with no array check: a parsed value has a callable \<^verbatim>\<open>map\<close> only
  when it is an array.
\<close>

definition format_questions_direct :: "json \<Rightarrow> error + json list" where
  "format_questions_direct parsed =
     (case parsed of
        JArr qs \<Rightarrow> map_throwing format_question_direct qs
      | JNull \<Rightarrow> Inl (TypeError ''Cannot read properties of null (reading map)'')
      | _ \<Rightarrow> Inl (TypeError ''questions.map is not a function''))"

text \<open>\<^verbatim>\<open>JSON.parse(content.replace(/```json\n?|\n?```/g, '').trim())\<close>, on any content.\<close>

definition parse_content :: "parser \<Rightarrow> json \<Rightarrow> error + json" where
  "parse_content JSON_parse content =
     (case content of
        JStr text \<Rightarrow>
          (case JSON_parse (cleaned text) of None \<Rightarrow> Inl SyntaxError | Some v \<Rightarrow> Inr v)
      | _ \<Rightarrow> Inl (TypeError ''content.replace is not a function''))"

definition language_instruction_questions :: "language \<Rightarrow> string" where
  "language_instruction_questions outputLanguage =
     (if outputLanguage = Tamil
      then ''Please provide all questions and answers in Tamil language.''
      else ''Please provide all questions and answers in English language.'')"

definition questions_payload_direct ::
  "platform \<Rightarrow> string \<Rightarrow> world \<Rightarrow> (error + json) \<times> world" where
  "questions_payload_direct p request_prompt w =
     (case do_fetch (fetch_of p) (request_url p)
             \<lparr>prompt = request_prompt, max_output_tokens = 5000\<rparr> w of
        (Rejected reason, w1) \<Rightarrow> (Inl (Rejection reason), w1)
      | (Resolved response, w1) \<Rightarrow>
          if \<not> ok response then (Inl (HttpError (status response)), w1)
          else
            (case json_body response of
               Inl reason \<Rightarrow> (Inl (Rejection reason), w1)
             | Inr data \<Rightarrow>
                 (case candidate_text data of
                    Inl e \<Rightarrow> (Inl e, w1)
                  | Inr None \<Rightarrow> (Inl NoContent, w1)
                  | Inr (Some content) \<Rightarrow>
                      if \<not> truthy content then (Inl NoContent, w1)
                      else (parse_content (parse_of p) content,
                            say (LogRaw ''Raw questions response:'' content) w1))))"

definition generateQuestions_direct_body ::
  "platform \<Rightarrow> templates \<Rightarrow> analysis_result list \<Rightarrow> string \<Rightarrow> language \<Rightarrow> world
     \<Rightarrow> (error + question_result) \<times> world" where
  "generateQuestions_direct_body p tpl analysisResults difficultyLevel outputLanguage w =
     (let combinedContent =
            map (\<lambda>result. (join [newline] (result_keyPoints result), result_summary result,
                            result_tnpscRelevance result)) analysisResults;
          languageInstruction = language_instruction_questions outputLanguage;
          request_prompt =
            questions_template tpl combinedContent difficultyLevel languageInstruction
      in case questions_payload_direct p request_prompt w of
           (Inl e, w1) \<Rightarrow> (Inl e, w1)
         | (Inr parsed, w1) \<Rightarrow>
             (case format_questions_direct parsed of
                Inl e \<Rightarrow> (Inl e, w1)
              | Inr formattedQuestions \<Rightarrow>
                  (Inr \<lparr>questions = formattedQuestions,
                        questions_summary = join '' '' (map (\<lambda>(k, s, r). s) combinedContent),
                        questions_keyPoints = concat (map result_keyPoints analysisResults),
                        difficulty = difficultyLevel,
                        totalQuestions = length formattedQuestions\<rparr>,
                   w1)))"

definition generateQuestions_direct ::
  "platform \<Rightarrow> templates \<Rightarrow> analysis_result list \<Rightarrow> string \<Rightarrow> language \<Rightarrow> world
     \<Rightarrow> (error + question_result) \<times> world" where
  "generateQuestions_direct p tpl analysisResults difficultyLevel outputLanguage w =
     (case generateQuestions_direct_body p tpl analysisResults difficultyLevel outputLanguage w of
        (Inl e, w1) \<Rightarrow> (Inl e, say (ErrorIn ''generating questions'' e) w1)
      | (Inr result, w1) \<Rightarrow> (Inr result, w1))"

subsection \<open>analyzePdfContentComprehensive\<close>

definition language_instruction :: "language \<Rightarrow> string" where
  "language_instruction outputLanguage =
     (if outputLanguage = Tamil
      then ''Please provide all responses in Tamil language.''
      else ''Please provide all responses in English language.'')"

text \<open>
  How the \<^verbatim>\<open>try\<close> block of one page ends: it ran to its end, it left through one of its
  two \<^verbatim>\<open>continue\<close> statements (after logging), or it threw.
\<close>

datatype page_end = Completed | Continued | Threw error

text \<open>
  The \<^verbatim>\<open>try\<close> block (lines 468--517): the fetch, the two guarded \<^verbatim>\<open>continue\<close>s, the
  parse, the push of the page analysis, then the two spreads, each of which can throw
  after the pushes before it.
\<close>

definition try_page_direct ::
  "platform \<Rightarrow> string \<Rightarrow> int \<Rightarrow> collected \<times> world \<Rightarrow> page_end \<times> collected \<times> world" where
  "try_page_direct p request_prompt number state =
     (case state of
        ((analyses, allKeyPoints, allCategories), w) \<Rightarrow>
          (case do_fetch (fetch_of p) (request_url p)
                  \<lparr>prompt = request_prompt, max_output_tokens = 2000\<rparr> w of
             (Rejected reason, w1) \<Rightarrow>
               (Threw (Rejection reason), (analyses, allKeyPoints, allCategories), w1)
           | (Resolved response, w1) \<Rightarrow>
               if \<not> ok response then
                 (Continued, (analyses, allKeyPoints, allCategories),
                  say (ErrorPageFailed number) w1)
               else
                 (case json_body response of
                    Inl reason \<Rightarrow>
                      (Threw (Rejection reason), (analyses, allKeyPoints, allCategories), w1)
                  | Inr data \<Rightarrow>
                      (case candidate_text data of
                         Inl e \<Rightarrow> (Threw e, (analyses, allKeyPoints, allCategories), w1)
                       | Inr None \<Rightarrow>
                           (Continued, (analyses, allKeyPoints, allCategories),
                            say (ErrorPageNoContent number) w1)
                       | Inr (Some content) \<Rightarrow>
                           if \<not> truthy content then
                             (Continued, (analyses, allKeyPoints, allCategories),
                              say (ErrorPageNoContent number) w1)
                           else
                             (case parse_content (parse_of p) content of
                                Inl e \<Rightarrow>
                                  (Threw e, (analyses, allKeyPoints, allCategories), w1)
                              | Inr JNull \<Rightarrow>
                                  (Threw (TypeError
                                     ''Cannot read properties of null (reading keyPoints)''),
                                   (analyses, allKeyPoints, allCategories), w1)
                              | Inr analysis \<Rightarrow>
                                  (let entry =
                                         \<lparr>pageNumber = number,
                                          keyPoints =
                                            or_else (get_prop analysis ''keyPoints'') (JArr []),
                                          studyPoints =
                                            or_else (get_prop analysis ''studyPoints'') (JArr []),
                                          summary =
                                            or_else (get_prop analysis ''summary'') (JStr []),
                                          tnpscRelevance =
                                            or_else (get_prop analysis ''tnpscRelevance'')
                                              (JStr [])\<rparr>
                                   in case spread (keyPoints entry) of
                                        Inl e \<Rightarrow>
                                          (Threw e,
                                           (analyses @ [entry], allKeyPoints, allCategories), w1)
                                      | Inr points \<Rightarrow>
                                          (case spread (or_else
                                                  (get_prop analysis ''tnpscCategories'')
                                                  (JArr [])) of
                                             Inl e \<Rightarrow>
                                               (Threw e,
                                                (analyses @ [entry], allKeyPoints @ points,
                                                 allCategories), w1)
                                           | Inr categories \<Rightarrow>
                                               (Completed,
                                                (analyses @ [entry], allKeyPoints @ points,
                                                 allCategories @ categories), w1))))))))"

text \<open>
  One iteration of the inner loop: a sparse page continues at once; a \<^verbatim>\<open>continue\<close> inside
  the \<^verbatim>\<open>try\<close> also skips the 500 ms pause; a thrown error is logged by the \<^verbatim>\<open>catch\<close> and
  the pause follows.
\<close>

definition process_page_direct ::
  "platform \<Rightarrow> templates \<Rightarrow> language \<Rightarrow> string \<times> string \<Rightarrow> collected \<times> world
     \<Rightarrow> collected \<times> world" where
  "process_page_direct p tpl outputLanguage match state =
     (let number = parseInt10 (fst match);
          pageContent = trim (snd match)
      in if length pageContent < 50 then state
         else
           (let languageInstruction = language_instruction outputLanguage;
                request_prompt =
                  page_template tpl languageInstruction number (take 4000 pageContent)
            in case try_page_direct p request_prompt number state of
                 (Completed, arrays, w1) \<Rightarrow> (arrays, sleep 500 w1)
               | (Continued, arrays, w1) \<Rightarrow> (arrays, w1)
               | (Threw e, arrays, w1) \<Rightarrow>
                   (arrays, sleep 500 (say (ErrorAnalyzingPage number e) w1))))"

fun process_batch_direct ::
  "platform \<Rightarrow> templates \<Rightarrow> language \<Rightarrow> (string \<times> string) list \<Rightarrow> collected \<times> world
     \<Rightarrow> collected \<times> world" where
  "process_batch_direct p tpl outputLanguage [] state = state"
| "process_batch_direct p tpl outputLanguage (match # batch) state =
     process_batch_direct p tpl outputLanguage batch
       (process_page_direct p tpl outputLanguage match state)"

text \<open>
  The outer loop: \<^verbatim>\<open>for (let i = 0; i < pageMatches.length; i += batchSize)\<close> over
  \<^verbatim>\<open>pageMatches.slice(i, i + batchSize)\<close>, with \<^verbatim>\<open>batchSize = 5\<close>.
\<close>

function process_batches_direct ::
  "platform \<Rightarrow> templates \<Rightarrow> language \<Rightarrow> (string \<times> string) list \<Rightarrow> nat \<Rightarrow> collected \<times> world
     \<Rightarrow> collected \<times> world" where
  "process_batches_direct p tpl outputLanguage pageMatches i state =
     (if i < length pageMatches then
        process_batches_direct p tpl outputLanguage pageMatches (i + 5)
          (process_batch_direct p tpl outputLanguage (take 5 (drop i pageMatches)) state)
      else state)"
  by pat_completeness auto
termination
  by (relation "measure (\<lambda>(p, tpl, outputLanguage, pageMatches, i, state). length pageMatches - i)")
     auto

declare process_batches_direct.simps [simp del]

definition aggregate_direct :: "collected \<times> world \<Rightarrow> (error + comprehensive) \<times> world" where
  "aggregate_direct state =
     (case state of
        ((analyses, allKeyPoints, allCategories), w) \<Rightarrow>
          (Inr \<lparr>pageAnalyses = analyses,
                overallSummary =
                  ''Comprehensive analysis of '' @ show_nat (length analyses)
                  @ '' pages with '' @ show_nat (length allKeyPoints)
                  @ '' total key points identified.'',
                totalKeyPoints = allKeyPoints,
                tnpscCategories = set_values allCategories\<rparr>,
           w))"

definition analyzePdfContentComprehensive_direct ::
  "platform \<Rightarrow> templates \<Rightarrow> string \<Rightarrow> language \<Rightarrow> world \<Rightarrow> (error + comprehensive) \<times> world" where
  "analyzePdfContentComprehensive_direct p tpl textContent outputLanguage w =
     (let pageMatches = page_matches textContent;
          w0 = say (LogFound (length pageMatches)) w
      in aggregate_direct
           (process_batches_direct p tpl outputLanguage pageMatches 0 (([], [], []), w0)))"

text \<open>How the \<^verbatim>\<open>try\<close> block ends for segment \<open>j\<close> in a run of the loop over \<open>matches\<close>.\<close>

definition page_end_direct ::
  "platform \<Rightarrow> templates \<Rightarrow> language \<Rightarrow> (string \<times> string) list \<Rightarrow> world \<Rightarrow> nat \<Rightarrow> page_end" where
  "page_end_direct p tpl outputLanguage matches w0 j =
     fst (try_page_direct p
            (page_template tpl (language_instruction outputLanguage)
               (parseInt10 (fst (matches ! j))) (take 4000 (trim (snd (matches ! j)))))
            (parseInt10 (fst (matches ! j)))
            (process_batch_direct p tpl outputLanguage (take j matches) (([], [], []), w0)))"

text \<open>The request text of the loop for one segment.\<close>

definition prompt_of :: "templates \<Rightarrow> language \<Rightarrow> string \<times> string \<Rightarrow> string" where
  "prompt_of tpl outputLanguage match =
     page_template tpl (language_instruction outputLanguage) (parseInt10 (fst match))
       (take 4000 (trim (snd match)))"

text \<open>Templates for the examples.\<close>

definition example_templates :: templates where
  "example_templates =
     \<lparr>questions_template = (\<lambda>combinedContent level instruction.
          ''Generate questions. Difficulty Level: '' @ level @ [newline] @ instruction),
      page_template = (\<lambda>instruction number content.
          instruction @ [newline] @ ''Page '' @ show_int number @ '' Content: '' @ content)\<rparr>"


text \<open>Two replies, the first with a \<^verbatim>\<open>keyPoints\<close> value that is not a list.\<close>

definition untyped_replies :: transport where
  "untyped_replies = scripted
     [gemini_reply ''{\"keyPoints\": true, \"summary\": \"s1\"}'',
      gemini_reply ''{\"keyPoints\": [\"k2\"]}'']"

section \<open>Properties of fetchWithRetry\<close>

lemma loop_unfold_stop:
  "\<not> i < retries \<Longrightarrow>
   fetchWithRetry_loop fetch url options retries i delay w = (Inl (FetchExhausted url retries), w)"
  by (simp add: fetchWithRetry_loop.simps)

lemma loop_unfold_step:
  "i < retries \<Longrightarrow>
   fetchWithRetry_loop fetch url options retries i delay w =
     (case try_fetch fetch url options retries i delay w of
           (Return response, _, w1) \<Rightarrow> (Inr response, w1)
         | (Continue, delay1, w1) \<Rightarrow>
             fetchWithRetry_loop fetch url options retries (i + 1) delay1 w1
         | (Throw e, delay1, w1) \<Rightarrow>
             fetchWithRetry_loop fetch url options retries (i + 1) (delay1 * 2)
               (sleep delay1 (say (WarnNetwork delay1 (i + 1) retries e) w1)))"
  by (simp add: fetchWithRetry_loop.simps)

lemmas run_simps =
  fetchWithRetry_default_def fetchWithRetry_def loop_unfold_step loop_unfold_stop
  try_fetch_def do_fetch_def sleep_def say_def world0_def scripted_def http_response_def
  not_found_def unavailable_def success_def

lemma try_fetch_facts:
  assumes "try_fetch fetch url options retries i delay w = (a, d1, w1)"
  shows "fetches w1 = fetches w + 1"
    and "a = Continue \<Longrightarrow> d1 = delay * 2 \<and> sleeps w1 = sleeps w @ [delay]"
    and "a \<noteq> Continue \<Longrightarrow> d1 = delay \<and> sleeps w1 = sleeps w"
    and "\<exists>new. console w1 = console w @ new \<and> caught_errors new = []"
    and "a = Throw e \<Longrightarrow> attempt_error e"
    and "(\<exists>r. a = Return r) \<longleftrightarrow> attempt_succeeds (fetch (fetches w) url options)"
  using assms
  by (auto simp: try_fetch_def do_fetch_def sleep_def say_def attempt_succeeds_def attempt_error_def
      split: fetch_outcome.splits if_splits)

lemma caught_errors_append: "caught_errors (xs @ ys) = caught_errors xs @ caught_errors ys"
  by (induction xs rule: caught_errors.induct) simp_all

text \<open>The only error the wrapper itself ends with is the exhausted-retries error.\<close>

lemma fetchWithRetry_loop_error:
  "fst (fetchWithRetry_loop fetch url options retries i delay w) = Inl e
   \<Longrightarrow> e = FetchExhausted url retries"
proof (induction "nat (retries - i)" arbitrary: i delay w)
  case 0
  then have "\<not> i < retries" by simp
  with "0.prems" show ?case by (simp add: loop_unfold_stop)
next
  case (Suc n)
  then have lt: "i < retries" and n: "n = nat (retries - (i + 1))" by auto
  show ?case
    using Suc.prems Suc.hyps(1)[OF n]
    by (simp add: loop_unfold_step[OF lt] split: prod.splits attempt.splits)
qed

text \<open>
  C1. The spec: a client error (a response that is not ok and whose status is outside
  500..599) makes fetchWithRetry fail at once with the HTTP error, with no further fetch
  and no backoff wait.  The code logs "Aborting retries" and throws the HTTP error inside
  its own \<^verbatim>\<open>try\<close>; the \<^verbatim>\<open>catch\<close> clause takes it for a network failure.  With a transport
  that always answers 404 the default call fetches three times, waits 1000, 2000 and
  4000 ms, and ends with the exhausted-retries error; the HTTP error only reaches the
  console.
\<close>

theorem fetchWithRetry_client_error_retried:
  "fetchWithRetry_default (scripted [not_found, not_found, not_found]) ''u'' example_options world0 =
     (Inl (FetchExhausted ''u'' 3),
      \<lparr>fetches = 3, sleeps = [1000, 2000, 4000],
       console =
         [ErrorClient 404, WarnNetwork 1000 1 3 (HttpError 404),
          ErrorClient 404, WarnNetwork 2000 2 3 (HttpError 404),
          ErrorClient 404, WarnNetwork 4000 3 3 (HttpError 404)]\<rparr>)"
  by (simp add: run_simps)

text \<open>
  C2. The spec: with 500 on the first three attempts and 200 on the fourth, the default
  call makes exactly three retries and returns the 200 response, as the doc comment of
  \<^verbatim>\<open>retries\<close> ("the number of times to retry on failure") promises.  The loop bound
  \<^verbatim>\<open>i < retries\<close> allows three fetches in all: after the third 500 the code announces
  "Retrying in 4s... (3/3)", waits 4000 ms and leaves the loop, so the announced retry,
  the fourth fetch, is never issued and the call ends with the exhausted-retries error.
\<close>

theorem fetchWithRetry_three_500_then_200:
  "fetchWithRetry_default three_500_then_200 ''u'' example_options world0 =
     (Inl (FetchExhausted ''u'' 3),
      \<lparr>fetches = 3, sleeps = [1000, 2000, 4000],
       console =
         [WarnServerError 500 1000 1 3, WarnServerError 500 2000 2 3,
          WarnServerError 500 4000 3 3]\<rparr>)"
  by (simp add: run_simps three_500_then_200_def)

lemma loop_all_fail:
  assumes "\<forall>k. k < nat (retries - i) \<longrightarrow> \<not> attempt_succeeds (fetch (fetches w + k) url options)"
  shows "fst (fetchWithRetry_loop fetch url options retries i delay w) = Inl (FetchExhausted url retries)
       \<and> fetches (snd (fetchWithRetry_loop fetch url options retries i delay w)) = fetches w + nat (retries - i)"
  using assms
proof (induction "nat (retries - i)" arbitrary: i delay w)
  case 0
  then have "\<not> i < retries" by simp
  then show ?case by (simp add: loop_unfold_stop)
next
  case (Suc m)
  then have lt: "i < retries" and m: "m = nat (retries - (i + 1))" by auto
  obtain a d1 w1 where t: "try_fetch fetch url options retries i delay w = (a, d1, w1)"
    by (cases "try_fetch fetch url options retries i delay w") auto
  note facts = try_fetch_facts[OF t]
  have first: "\<not> attempt_succeeds (fetch (fetches w) url options)"
    using Suc.prems lt by (metis add.right_neutral Suc.hyps(2) zero_less_Suc)
  have later: "\<forall>k. k < nat (retries - (i + 1)) \<longrightarrow>
                 \<not> attempt_succeeds (fetch (fetches w + 1 + k) url options)"
  proof (intro allI impI)
    fix k assume "k < nat (retries - (i + 1))"
    then have "Suc k < nat (retries - i)" by simp
    with Suc.prems show "\<not> attempt_succeeds (fetch (fetches w + 1 + k) url options)"
      by (metis add.assoc plus_1_eq_Suc)
  qed
  have cnt: "1 + nat (retries - (i + 1)) = nat (retries - i)" using lt by simp
  show ?case
  proof (cases a)
    case (Return r)
    with facts(6) first show ?thesis by blast
  next
    case Continue
    have eq: "fetchWithRetry_loop fetch url options retries i delay w
              = fetchWithRetry_loop fetch url options retries (i + 1) d1 w1"
      using t lt Continue by (simp add: loop_unfold_step)
    show ?thesis
      using Suc.hyps(1)[OF m, of w1 d1] later facts(1) cnt unfolding eq by simp
  next
    case (Throw e)
    let ?w2 = "sleep d1 (say (WarnNetwork d1 (i + 1) retries e) w1)"
    have eq: "fetchWithRetry_loop fetch url options retries i delay w
              = fetchWithRetry_loop fetch url options retries (i + 1) (d1 * 2) ?w2"
      using t lt Throw by (simp add: loop_unfold_step)
    have f2: "fetches ?w2 = fetches w + 1" using facts(1) by (simp add: sleep_def say_def)
    show ?thesis
      using Suc.hyps(1)[OF m, of ?w2 "d1 * 2"] later f2 cnt unfolding eq by simp
  qed
qed

lemma loop_console:
  "\<exists>new. console (snd (fetchWithRetry_loop fetch url options retries i delay w)) = console w @ new
        \<and> list_all attempt_error (caught_errors new)"
proof (induction "nat (retries - i)" arbitrary: i delay w)
  case 0
  then have "\<not> i < retries" by simp
  then show ?case by (simp add: loop_unfold_stop)
next
  case (Suc m)
  then have lt: "i < retries" and m: "m = nat (retries - (i + 1))" by auto
  obtain a d1 w1 where t: "try_fetch fetch url options retries i delay w = (a, d1, w1)"
    by (cases "try_fetch fetch url options retries i delay w") auto
  note facts = try_fetch_facts[OF t]
  from facts(4) obtain new1 where new1: "console w1 = console w @ new1" "caught_errors new1 = []"
    by blast
  show ?case
  proof (cases a)
    case (Return r)
    with t lt new1 show ?thesis by (simp add: loop_unfold_step)
  next
    case Continue
    let ?rest = "fetchWithRetry_loop fetch url options retries (i + 1) d1 w1"
    have eq: "fetchWithRetry_loop fetch url options retries i delay w = ?rest"
      using t lt Continue by (simp add: loop_unfold_step)
    from Suc.hyps(1)[OF m, of d1 w1] obtain new where
      "console (snd ?rest) = console w1 @ new" "list_all attempt_error (caught_errors new)"
      by blast
    then have "console (snd ?rest) = console w @ (new1 @ new)
               \<and> list_all attempt_error (caught_errors (new1 @ new))"
      using new1 by (simp add: caught_errors_append)
    then show ?thesis unfolding eq by blast
  next
    case (Throw e)
    let ?entry = "WarnNetwork d1 (i + 1) retries e"
    let ?w2 = "sleep d1 (say ?entry w1)"
    let ?rest = "fetchWithRetry_loop fetch url options retries (i + 1) (d1 * 2) ?w2"
    have eq: "fetchWithRetry_loop fetch url options retries i delay w = ?rest"
      using t lt Throw by (simp add: loop_unfold_step)
    have e: "attempt_error e" using facts(5)[OF Throw] .
    from Suc.hyps(1)[OF m, of "d1 * 2" ?w2] obtain new where
      "console (snd ?rest) = console ?w2 @ new" "list_all attempt_error (caught_errors new)"
      by blast
    then have "console (snd ?rest) = console w @ (new1 @ ?entry # new)
               \<and> list_all attempt_error (caught_errors (new1 @ ?entry # new))"
      using new1 e by (simp add: caught_errors_append sleep_def say_def)
    then show ?thesis unfolding eq by blast
  qed
qed

text \<open>
  C3. When none of the allowed attempts succeeds (the \<open>retries\<close> fetch calls of the run
  are rejected or answered with a response that is not ok), fetchWithRetry ends with the
  error "Failed to fetch from <url> after <retries> attempts.", having issued exactly
  \<open>retries\<close> fetch calls, and that error is none of the errors the loop caught from the
  single attempts (each of which is an HTTP error or a rejection of fetch).
\<close>

theorem fetchWithRetry_exhausted:
  assumes "list_all (\<lambda>k. \<not> attempt_succeeds (fetch (fetches w + k) url options)) [0..<nat retries]"
  shows "fst (fetchWithRetry fetch url options retries delay w) = Inl (FetchExhausted url retries)
       \<and> error_message (FetchExhausted url retries)
           = ''Failed to fetch from '' @ url @ '' after '' @ show_int retries @ '' attempts.''
       \<and> fetches (snd (fetchWithRetry fetch url options retries delay w)) = fetches w + nat retries
       \<and> FetchExhausted url retries \<notin>
           set (caught_errors (drop (length (console w))
                  (console (snd (fetchWithRetry fetch url options retries delay w)))))
       \<and> list_all attempt_error
           (caught_errors (drop (length (console w))
              (console (snd (fetchWithRetry fetch url options retries delay w)))))"
proof -
  have all: "\<forall>k. k < nat (retries - 0) \<longrightarrow> \<not> attempt_succeeds (fetch (fetches w + k) url options)"
    using assms by (simp add: list_all_iff)
  obtain new where new:
    "console (snd (fetchWithRetry fetch url options retries delay w)) = console w @ new"
    "list_all attempt_error (caught_errors new)"
    using loop_console[of fetch url options retries 0 delay w] by (auto simp: fetchWithRetry_def)
  have "\<not> attempt_error (FetchExhausted url retries)" by (simp add: attempt_error_def)
  with new have "FetchExhausted url retries \<notin> set (caught_errors new)"
    by (auto simp: list_all_iff)
  with new loop_all_fail[of retries 0 fetch w url options delay] all show ?thesis
    by (simp add: fetchWithRetry_def)
qed

theorem fetchWithRetry_exhausted_witness:
  "list_all (\<lambda>k. \<not> attempt_succeeds (mixed_failures (fetches world0 + k) ''u'' example_options))
     [0..<nat 3]
   \<and> fst (fetchWithRetry mixed_failures ''u'' example_options 3 1000 world0)
       = Inl (FetchExhausted ''u'' 3)
   \<and> error_message (FetchExhausted ''u'' 3) = ''Failed to fetch from u after 3 attempts.''
   \<and> fetches (snd (fetchWithRetry mixed_failures ''u'' example_options 3 1000 world0)) = 3
   \<and> caught_errors (console (snd (fetchWithRetry mixed_failures ''u'' example_options 3 1000
        world0))) = [Rejection ''reset'', HttpError 404]"
proof -
  have h: "list_all
      (\<lambda>k. \<not> attempt_succeeds (mixed_failures (fetches world0 + k) ''u'' example_options))
      [0..<nat 3]"
    by code_simp
  have c: "caught_errors (console (snd (fetchWithRetry mixed_failures ''u'' example_options 3 1000
        world0))) = [Rejection ''reset'', HttpError 404]"
    by (simp add: run_simps mixed_failures_def)
  have m: "error_message (FetchExhausted ''u'' 3) = ''Failed to fetch from u after 3 attempts.''"
    by (simp add: show_int_def)
  have f: "fetches world0 = 0" by (simp add: world0_def)
  show ?thesis
    using h c m f
      fetchWithRetry_exhausted [where fetch = mixed_failures and w = world0 and url = "''u''"
        and options = example_options and retries = 3 and delay = 1000]
    by simp
qed

lemma backoff_shift:
  "d # map (\<lambda>k. d * 2 * 2 ^ k) [0..<n] = map (\<lambda>k. (d::int) * 2 ^ k) [0..<Suc n]"
proof -
  have "map (\<lambda>k. (d::int) * 2 ^ k) [0..<Suc n] = d # map (\<lambda>k. d * 2 ^ k) (map Suc [0..<n])"
    by (simp only: upt_conv_Cons[of 0 "Suc n"] map_Suc_upt[symmetric]) simp
  then show ?thesis by (simp add: comp_def mult.assoc)
qed

lemma loop_backoff:
  "\<exists>n. sleeps (snd (fetchWithRetry_loop fetch url options retries i delay w))
         = sleeps w @ map (\<lambda>k. delay * 2 ^ k) [0..<n]
     \<and> fetches (snd (fetchWithRetry_loop fetch url options retries i delay w))
         = fetches w + n +
           (case fst (fetchWithRetry_loop fetch url options retries i delay w) of
              Inl _ \<Rightarrow> 0 | Inr _ \<Rightarrow> 1)"
proof (induction "nat (retries - i)" arbitrary: i delay w)
  case 0
  then have "\<not> i < retries" by simp
  then show ?case by (simp add: loop_unfold_stop)
next
  case (Suc m)
  then have lt: "i < retries" and m: "m = nat (retries - (i + 1))" by auto
  obtain a d1 w1 where t: "try_fetch fetch url options retries i delay w = (a, d1, w1)"
    by (cases "try_fetch fetch url options retries i delay w") auto
  note facts = try_fetch_facts[OF t]
  show ?case
  proof (cases a)
    case (Return r)
    with t lt facts show ?thesis by (simp add: loop_unfold_step)
  next
    case Continue
    let ?rest = "fetchWithRetry_loop fetch url options retries (i + 1) d1 w1"
    from Suc.hyps(1)[OF m, of d1 w1] obtain n where
      n: "sleeps (snd ?rest) = sleeps w1 @ map (\<lambda>k. d1 * 2 ^ k) [0..<n]"
         "fetches (snd ?rest) = fetches w1 + n + (case fst ?rest of Inl _ \<Rightarrow> 0 | Inr _ \<Rightarrow> 1)"
      by blast
    have eq: "fetchWithRetry_loop fetch url options retries i delay w = ?rest"
      using t lt Continue by (simp add: loop_unfold_step)
    have "sleeps (snd ?rest) = sleeps w @ map (\<lambda>k. delay * 2 ^ k) [0..<Suc n]"
      using n(1) facts(2)[OF Continue] backoff_shift[of delay n] by simp
    moreover have "fetches (snd ?rest)
        = fetches w + Suc n + (case fst ?rest of Inl _ \<Rightarrow> 0 | Inr _ \<Rightarrow> 1)"
      using n(2) facts(1) by simp
    ultimately show ?thesis unfolding eq by blast
  next
    case (Throw e)
    let ?w2 = "sleep d1 (say (WarnNetwork d1 (i + 1) retries e) w1)"
    let ?rest = "fetchWithRetry_loop fetch url options retries (i + 1) (d1 * 2) ?w2"
    from Suc.hyps(1)[OF m, of "d1 * 2" ?w2] obtain n where
      n: "sleeps (snd ?rest) = sleeps ?w2 @ map (\<lambda>k. d1 * 2 * 2 ^ k) [0..<n]"
         "fetches (snd ?rest) = fetches ?w2 + n + (case fst ?rest of Inl _ \<Rightarrow> 0 | Inr _ \<Rightarrow> 1)"
      by blast
    have eq: "fetchWithRetry_loop fetch url options retries i delay w = ?rest"
      using t lt Throw by (simp add: loop_unfold_step)
    have d1: "d1 = delay" "sleeps w1 = sleeps w" using facts(3) Throw by auto
    have "sleeps (snd ?rest) = sleeps w @ map (\<lambda>k. delay * 2 ^ k) [0..<Suc n]"
      using n(1) d1 backoff_shift[of delay n] by (simp add: sleep_def say_def)
    moreover have "fetches (snd ?rest)
        = fetches w + Suc n + (case fst ?rest of Inl _ \<Rightarrow> 0 | Inr _ \<Rightarrow> 1)"
      using n(2) facts(1) by (simp add: sleep_def say_def)
    ultimately show ?thesis unfolding eq by blast
  qed
qed

text \<open>
  C9. Every wait of a run comes from the one \<open>delay\<close> variable, which both the
  server-error branch and the \<^verbatim>\<open>catch\<close> clause double after waiting: the run adds
  to the delays slept the list \<open>delay, 2 * delay, 4 * delay, ...\<close>, the \<open>k\<close>-th wait
  (from 1) being \<open>delay * 2 ^ (k - 1)\<close>, with one wait for each fetch that did not return
  an ok response, whatever the kind of failure.
\<close>

theorem fetchWithRetry_backoff:
  "\<exists>n. sleeps (snd (fetchWithRetry fetch url options retries delay w))
         = sleeps w @ map (\<lambda>k. delay * 2 ^ k) [0..<n]
     \<and> fetches (snd (fetchWithRetry fetch url options retries delay w))
         = fetches w + n +
           (case fst (fetchWithRetry fetch url options retries delay w) of
              Inl _ \<Rightarrow> 0 | Inr _ \<Rightarrow> 1)"
  unfolding fetchWithRetry_def by (rule loop_backoff)

theorem fetchWithRetry_backoff_witness:
  "sleeps (snd (fetchWithRetry mixed_failures ''u'' example_options 3 1000 world0))
     = [1000, 2000, 4000]
   \<and> fetches (snd (fetchWithRetry mixed_failures ''u'' example_options 3 1000 world0)) = 3
   \<and> (\<exists>n. sleeps (snd (fetchWithRetry mixed_failures ''u'' example_options 3 1000 world0))
           = sleeps world0 @ map (\<lambda>k. 1000 * 2 ^ k) [0..<n]
         \<and> fetches (snd (fetchWithRetry mixed_failures ''u'' example_options 3 1000 world0))
           = fetches world0 + n +
             (case fst (fetchWithRetry mixed_failures ''u'' example_options 3 1000 world0) of
                Inl _ \<Rightarrow> 0 | Inr _ \<Rightarrow> 1))"
proof -
  have s: "sleeps (snd (fetchWithRetry mixed_failures ''u'' example_options 3 1000 world0))
     = [1000, 2000, 4000]"
    and f: "fetches (snd (fetchWithRetry mixed_failures ''u'' example_options 3 1000 world0)) = 3"
    by (simp_all add: run_simps mixed_failures_def)
  show ?thesis
    using s f fetchWithRetry_backoff [where fetch = mixed_failures and url = "''u''"
        and options = example_options and retries = 3 and delay = 1000 and w = world0]
    by blast
qed

section \<open>Properties of safeParseJson\<close>

lemmas chars = backtick_def newline_def fence_def

lemma strip_fences_open: "strip_fences (fence @ ''json'' @ [newline] @ s) = strip_fences s"
  by (simp add: fence_match_def chars)

text \<open>
  Appending the closing fence to a string that is neither empty nor the bare opening
  fence changes no match of the four patterns at its start: a pattern that reached into
  the appended part would have to contain the line feed in front of its last backticks.
\<close>

lemma pattern_append:
  assumes "xs \<noteq> []" "xs \<noteq> fence @ ''json''"
  shows "prefix (fence @ ''json'') (xs @ newline # fence) = prefix (fence @ ''json'') xs"
    and "prefix (fence @ ''json'' @ [newline]) (xs @ newline # fence)
         = prefix (fence @ ''json'' @ [newline]) xs"
    and "prefix (newline # fence) (xs @ newline # fence) = prefix (newline # fence) xs"
    and "prefix fence (xs @ newline # fence) = prefix fence xs"
  using assms
  by (auto simp: prefix_append chars Cons_eq_append_conv)

lemma fence_match_append:
  assumes "xs \<noteq> []" "xs \<noteq> fence @ ''json''"
  shows "fence_match (xs @ newline # fence) = fence_match xs"
  unfolding fence_match_def using pattern_append[OF assms] by simp

lemma fence_match_length: "fence_match xs = Some n \<Longrightarrow> n \<le> length xs \<and> 0 < n"
  by (auto simp: fence_match_def chars prefix_def split: if_splits)

lemma strip_fences_close: "strip_fences (s @ newline # fence) = strip_fences s"
proof (induction s rule: strip_fences.induct)
  case 1
  show ?case by (simp add: fence_match_def chars)
next
  case (2 c cs)
  show ?case
  proof (cases "c # cs = fence @ ''json''")
    case True
    then show ?thesis by (simp add: fence_match_def chars)
  next
    case False
    then have fm: "fence_match ((c # cs) @ newline # fence) = fence_match (c # cs)"
      by (intro fence_match_append) auto
    show ?thesis
    proof (cases "fence_match (c # cs)")
      case None
      with fm "2.IH"(1) show ?thesis by simp
    next
      case (Some n)
      then have "n \<le> length (c # cs)" using fence_match_length by blast
      then have "drop n ((c # cs) @ newline # fence) = drop n (c # cs) @ newline # fence"
        by (simp only: drop_append) simp
      with fm Some "2.IH"(2)[OF Some] show ?thesis by simp
    qed
  qed
qed

lemma cleaned_fenced: "cleaned (fenced s) = cleaned s"
  using strip_fences_close[of "fence @ ''json'' @ [newline] @ s"] strip_fences_open[of s]
  by (simp add: cleaned_def fenced_def)

text \<open>
  C4. For every string \<open>s\<close> (valid JSON after trimming or not) and every behaviour of
  \<^verbatim>\<open>JSON.parse\<close>, safeParseJson returns for \<^verbatim>\<open>"```json\n" + s + "\n```"\<close> what it returns
  for \<open>s\<close>: the same parsed value, or the same error.  The replace removes the opening
  fence with its line feed and the closing fence with its line feed, and nothing else
  that it would not remove from \<open>s\<close> alone.
\<close>

theorem safeParseJson_fenced:
  "fst (safeParseJson parse (fenced s) w) = fst (safeParseJson parse s w)"
  by (simp add: safeParseJson_def cleaned_fenced split: option.splits)

theorem safeParseJson_fenced_witness:
  "fst (safeParseJson json_parser ''{\"keyPoints\": [\"a\"]}'' world0)
     = Inr (JObj [(''keyPoints'', JArr [JStr ''a''])])
   \<and> fst (safeParseJson json_parser (fenced ''{\"keyPoints\": [\"a\"]}'') world0)
     = Inr (JObj [(''keyPoints'', JArr [JStr ''a''])])"
proof -
  have "fst (safeParseJson json_parser ''{\"keyPoints\": [\"a\"]}'' world0)
     = Inr (JObj [(''keyPoints'', JArr [JStr ''a''])])"
    by code_simp
  then show ?thesis
    using safeParseJson_fenced [where parse = json_parser and s = "''{\"keyPoints\": [\"a\"]}''"
        and w = world0]
    by simp
qed

text \<open>
  C5 as the spec states it: the error of a failed parse carries the original text.  Two
  different malformed texts end in the same error value, so the text is not in it.
\<close>

theorem safeParseJson_error_without_text:
  "json_parser (cleaned ''{oops'') = None \<and> json_parser (cleaned ''[1,'') = None
   \<and> ''{oops'' \<noteq> ''[1,''
   \<and> fst (safeParseJson json_parser ''{oops'' world0) = Inl InvalidJson
   \<and> fst (safeParseJson json_parser ''[1,'' world0) = Inl InvalidJson
   \<and> error_message InvalidJson
       = ''Invalid JSON response from API. The response could not be parsed.''"
proof -
  have a: "json_parser (cleaned ''{oops'') = None" by code_simp
  have b: "json_parser (cleaned ''[1,'') = None" by code_simp
  show ?thesis using a b by (simp add: safeParseJson_def)
qed

text \<open>
  C5, amended.  When the cleaned text is not valid JSON, safeParseJson does not crash: it
  writes the original text to the console (\<^verbatim>\<open>rawContent\<close>) and fails with the error of
  the fixed message "Invalid JSON response from API. The response could not be parsed.",
  a message no other error constructed by the service has.  The text is in the console
  entry, not in the error.
\<close>

theorem safeParseJson_malformed:
  assumes "parse (cleaned input) = None"
  shows "safeParseJson parse input w = (Inl InvalidJson, say (ErrorParse input) w)
       \<and> console (snd (safeParseJson parse input w)) = console w @ [ErrorParse input]
       \<and> error_message InvalidJson
           = ''Invalid JSON response from API. The response could not be parsed.''
       \<and> error_message InvalidJson \<noteq> error_message NoContent
       \<and> error_message InvalidJson \<noteq> error_message (HttpError s)
       \<and> error_message InvalidJson \<noteq> error_message (FetchExhausted url retries)"
  using assms by (simp add: safeParseJson_def say_def)

theorem safeParseJson_malformed_witness:
  "json_parser (cleaned ''{oops'') = None
   \<and> safeParseJson json_parser ''{oops'' world0
       = (Inl InvalidJson, \<lparr>fetches = 0, sleeps = [], console = [ErrorParse ''{oops'']\<rparr>)"
proof -
  have a: "json_parser (cleaned ''{oops'') = None" by code_simp
  show ?thesis
    using a safeParseJson_malformed [where parse = json_parser and input = "''{oops''"
        and w = world0 and s = 0 and url = "[]" and retries = 0]
    by (simp add: say_def world0_def)
qed

section \<open>Properties of analyzePdfContentComprehensive\<close>

lemma process_page_sparse: "sparse m \<Longrightarrow> process_page p lang m st = st"
  by (simp add: process_page_def sparse_def split: prod.splits)

lemma process_pages_append:
  "process_pages p lang (xs @ ys) st = process_pages p lang ys (process_pages p lang xs st)"
  by (induction xs arbitrary: st) simp_all

text \<open>
  C8. A segment whose trimmed text has fewer than 50 code units is skipped by its loop
  iteration, which leaves the three arrays and the world as they are: no fetch, no wait,
  no console entry, no entry in \<^verbatim>\<open>pageAnalyses\<close>, \<^verbatim>\<open>allKeyPoints\<close> or
  \<^verbatim>\<open>allCategories\<close>.  The whole analysis is the one of the other segments; only the
  count of found pages in the first log line includes the skipped one.
\<close>

theorem sparse_page_skipped:
  assumes "page_matches textContent = before @ match # after"
    and "length (trim (snd match)) < 50"
  shows "process_page p lang match state = state
       \<and> analyzePdfContentComprehensive p textContent lang w
           = aggregate (process_pages p lang (before @ after)
               (([], [], []), say (LogFound (Suc (length before + length after))) w))"
  using assms
  by (simp add: analyzePdfContentComprehensive_def process_pages_append process_page_sparse sparse_def)

lemma spread_or_else:
  "(case spread (or_else (Some v) (JArr [])) of Inl _ \<Rightarrow> [] | Inr pts \<Rightarrow> pts)
   = (case spread v of Inl _ \<Rightarrow> [] | Inr pts \<Rightarrow> pts)"
  by (cases v) (auto simp: or_else_def)

lemma analyzeIndividualPage_number:
  "analyzeIndividualPage p c n lang w = (Inr a, w1) \<Longrightarrow> pageNumber a = n"
  by (auto simp: analyzeIndividualPage_def analyzeIndividualPage_body_def
      split: prod.splits sum.splits option.splits if_splits json.splits)

lemma process_page_arrays:
  assumes "\<not> sparse m"
  shows "fst (process_page p lang m ((a, kp, c), w))
       = (case fst (call_of p lang m w) of
            Inl e \<Rightarrow> (a, kp, c)
          | Inr x \<Rightarrow> (a @ [x], kp @ key_point_list x, c))"
  using assms
  using spread_or_else[of "keyPoints (projr (fst (call_of p lang m w)))"]
  by (auto simp: process_page_def sparse_def call_of_def key_point_list_def Let_def
      split: prod.splits sum.splits)

lemma fetchWithRetry_console:
  "fetchWithRetry_default t url options w = (r, w1) \<Longrightarrow> \<exists>new. console w1 = console w @ new"
  using loop_console[of t url options 3 0 1000 w]
  by (auto simp: fetchWithRetry_default_def fetchWithRetry_def)

lemma safeParseJson_any_console:
  "safeParseJson_any parse content w = (r, w1) \<Longrightarrow> \<exists>new. console w1 = console w @ new"
  by (auto simp: safeParseJson_any_def safeParseJson_def say_def split: json.splits option.splits)

lemma analyzeIndividualPage_body_console:
  assumes "analyzeIndividualPage_body p c n lang w = (r, w2)"
  shows "\<exists>new. console w2 = console w @ new"
proof -
  let ?f = "fetchWithRetry_default (fetch_of p) (request_url p)
             \<lparr>prompt = individual_page_prompt, max_output_tokens = 5000\<rparr> w"
  obtain r1 w1 where f: "?f = (r1, w1)" by (cases ?f) auto
  obtain new1 where n1: "console w1 = console w @ new1"
    using fetchWithRetry_console[OF f] by blast
  have any: "\<And>content r' w'. safeParseJson_any (parse_of p) content w1 = (r', w')
                 \<Longrightarrow> \<exists>new. console w' = console w @ new"
    using safeParseJson_any_console n1 by (metis append.assoc)
  show ?thesis
    using assms n1 any unfolding analyzeIndividualPage_body_def f
    by (auto split: sum.splits option.splits prod.splits json.splits if_splits)
qed

lemma analyzeIndividualPage_console:
  assumes "analyzeIndividualPage p c n lang w = (r, w2)"
  shows "\<exists>new. console w2 = console w @ new"
proof -
  obtain r1 w1 where b: "analyzeIndividualPage_body p c n lang w = (r1, w1)"
    by (cases "analyzeIndividualPage_body p c n lang w") auto
  from analyzeIndividualPage_body_console[OF b] obtain new where "console w1 = console w @ new"
    by blast
  with assms b show ?thesis
    by (auto simp: analyzeIndividualPage_def say_def split: sum.splits)
qed

lemma process_page_console:
  assumes "\<not> sparse m"
  shows "\<exists>new. console (snd (process_page p lang m ((a, kp, c), w)))
           = console w @ new
         \<and> (\<forall>e. fst (call_of p lang m w) = Inl e
                \<longrightarrow> ErrorProcessingPage (parseInt10 (fst m)) e \<in> set new)"
proof -
  obtain r w1 where call: "call_of p lang m w = (r, w1)" by (cases "call_of p lang m w") auto
  then obtain new1 where n1: "console w1 = console w @ new1"
    using analyzeIndividualPage_console unfolding call_of_def by blast
  show ?thesis
    using assms call n1
    by (auto simp: process_page_def sparse_def call_of_def Let_def say_def sleep_def
        split: prod.splits sum.splits)
qed

lemma process_page_console_any:
  "\<exists>new. console (snd (process_page p lang m st)) = console (snd st) @ new"
proof (cases "sparse m")
  case True
  then show ?thesis by (simp add: process_page_sparse)
next
  case False
  obtain a kp c w where st: "st = ((a, kp, c), w)" by (cases st) auto
  from process_page_console[OF False, of p lang a kp c w] show ?thesis unfolding st by auto
qed

lemma process_pages_console:
  "\<exists>new. console (snd (process_pages p lang ms st)) = console (snd st) @ new"
proof (induction ms arbitrary: st)
  case Nil
  show ?case by simp
next
  case (Cons m ms)
  from Cons[of "process_page p lang m st"] process_page_console_any[of p lang m st]
  show ?case by (metis append.assoc process_pages.simps(2))
qed


lemma process_pages_collects:
  "\<exists>new. fst (process_pages p lang ms ((a, kp, c), w))
           = (a @ new, kp @ concat (map key_point_list new), c)
        \<and> subseq (map pageNumber new) (map (\<lambda>m. parseInt10 (fst m)) ms)"
proof (induction ms arbitrary: a kp c w)
  case Nil
  show ?case by simp
next
  case (Cons m ms)
  show ?case
  proof (cases "sparse m")
    case True
    with Cons[of a kp c w] show ?thesis
      by (auto simp: process_page_sparse intro: subseq_Cons')
  next
    case False
    obtain st' w' where st: "process_page p lang m ((a, kp, c), w) = (st', w')"
      by (cases "process_page p lang m ((a, kp, c), w)") auto
    obtain r w1 where call: "call_of p lang m w = (r, w1)" by (cases "call_of p lang m w") auto
    show ?thesis
    proof (cases r)
      case (Inl e)
      then have "st' = (a, kp, c)"
        using process_page_arrays[OF False, of p lang a kp c w] st call by simp
      with Cons[of a kp c w'] st show ?thesis
        by (auto intro: subseq_Cons')
    next
      case (Inr x)
      then have st': "st' = (a @ [x], kp @ key_point_list x, c)"
        using process_page_arrays[OF False, of p lang a kp c w] st call by simp
      have num: "pageNumber x = parseInt10 (fst m)"
        using call Inr analyzeIndividualPage_number unfolding call_of_def by blast
      from Cons[of "a @ [x]" "kp @ key_point_list x" c w'] obtain new where
        new: "fst (process_pages p lang ms ((a @ [x], kp @ key_point_list x, c), w'))
                = ((a @ [x]) @ new, (kp @ key_point_list x) @ concat (map key_point_list new), c)"
             "subseq (map pageNumber new) (map (\<lambda>m. parseInt10 (fst m)) ms)"
        by blast
      have "fst (process_pages p lang (m # ms) ((a, kp, c), w))
              = (a @ (x # new), kp @ concat (map key_point_list (x # new)), c)"
        using new(1) st st' by simp
      moreover have "subseq (map pageNumber (x # new)) (map (\<lambda>m. parseInt10 (fst m)) (m # ms))"
        using new(2) num by simp
      ultimately show ?thesis by blast
    qed
  qed
qed

lemma take_step:
  assumes "j < length ms"
  shows "process_pages p lang (take (Suc j) ms) st
       = process_page p lang (ms ! j) (process_pages p lang (take j ms) st)"
  using assms by (simp add: take_Suc_conv_app_nth process_pages_append)

lemma page_call_alt:
  "page_call p lang ms w0 j
   = fst (call_of p lang (ms ! j) (snd (process_pages p lang (take j ms) (([], [], []), w0))))"
  by (simp add: page_call_def call_of_def)

lemma run_prefix:
  assumes "list_all (\<lambda>m. \<not> sparse m) ms" "j \<le> length ms"
  shows "fst (fst (process_pages p lang (take j ms) (([], [], []), w0)))
           = map (\<lambda>i. projr (page_call p lang ms w0 i))
               (filter (\<lambda>i. \<not> isl (page_call p lang ms w0 i)) [0..<j])
       \<and> (\<forall>i<j. \<forall>e. page_call p lang ms w0 i = Inl e \<longrightarrow>
             ErrorProcessingPage (parseInt10 (fst (ms ! i))) e
               \<in> set (console (snd (process_pages p lang (take j ms) (([], [], []), w0)))))"
  using assms(2)
proof (induction j)
  case 0
  show ?case by simp
next
  case (Suc j)
  then have lt: "j < length ms" by simp
  let ?S = "process_pages p lang (take j ms) (([], [], []), w0)"
  obtain a kp c w where S: "?S = ((a, kp, c), w)" by (cases ?S) auto
  have ns: "\<not> sparse (ms ! j)" using assms(1) lt by (simp add: list_all_length)
  have step: "process_pages p lang (take (Suc j) ms) (([], [], []), w0)
              = process_page p lang (ms ! j) ((a, kp, c), w)"
    using take_step[OF lt] S by simp
  have call: "page_call p lang ms w0 j = fst (call_of p lang (ms ! j) w)"
    using S by (simp add: page_call_alt)
  from Suc.IH lt S have IH1: "a = map (\<lambda>i. projr (page_call p lang ms w0 i))
               (filter (\<lambda>i. \<not> isl (page_call p lang ms w0 i)) [0..<j])"
    and IH2: "\<forall>i<j. \<forall>e. page_call p lang ms w0 i = Inl e \<longrightarrow>
             ErrorProcessingPage (parseInt10 (fst (ms ! i))) e \<in> set (console w)"
    by simp_all
  from process_page_console[OF ns, of p lang a kp c w] obtain new where
    new: "console (snd (process_page p lang (ms ! j) ((a, kp, c), w))) = console w @ new"
         "\<forall>e. fst (call_of p lang (ms ! j) w) = Inl e
                \<longrightarrow> ErrorProcessingPage (parseInt10 (fst (ms ! j))) e \<in> set new"
    by blast
  have arrays: "fst (fst (process_page p lang (ms ! j) ((a, kp, c), w)))
      = a @ (case page_call p lang ms w0 j of Inl e \<Rightarrow> [] | Inr x \<Rightarrow> [x])"
    using process_page_arrays[OF ns, of p lang a kp c w] call by (simp split: sum.splits)
  have "fst (fst (process_pages p lang (take (Suc j) ms) (([], [], []), w0)))
           = a @ (case page_call p lang ms w0 j of Inl e \<Rightarrow> [] | Inr x \<Rightarrow> [x])"
    using step arrays by simp
  then have "fst (fst (process_pages p lang (take (Suc j) ms) (([], [], []), w0)))
           = map (\<lambda>i. projr (page_call p lang ms w0 i))
               (filter (\<lambda>i. \<not> isl (page_call p lang ms w0 i)) [0..<Suc j])"
    using IH1 by (cases "page_call p lang ms w0 j") simp_all
  moreover have "\<forall>i<Suc j. \<forall>e. page_call p lang ms w0 i = Inl e \<longrightarrow>
             ErrorProcessingPage (parseInt10 (fst (ms ! i))) e
               \<in> set (console (snd (process_pages p lang (take (Suc j) ms) (([], [], []), w0))))"
    unfolding step using IH2 new call by (auto simp: less_Suc_eq)
  ultimately show ?case by blast
qed


lemma others_count: "k < n \<Longrightarrow> length (filter (\<lambda>j. j \<noteq> k) [0..<n]) = n - 1"
  by (induction n) (auto simp: less_Suc_eq)

text \<open>
  C6. Take an OCR text whose page segments all have enough text, and let the model call
  of exactly one of them, segment \<open>k\<close>, raise an error while the calls of the others
  return (five segments in the claim; any number here).  Then the function does not
  abort: it returns an aggregate whose \<^verbatim>\<open>pageAnalyses\<close> are the analyses of the other
  segments, in order, and the console holds the error of segment \<open>k\<close> with its page
  number.
\<close>

theorem comprehensive_one_failure:
  assumes "ms = page_matches textContent"
    and "w0 = say (LogFound (length ms)) w"
    and "list_all (\<lambda>m. \<not> sparse m) ms"
    and "k < length ms"
    and "page_call p lang ms w0 k = Inl e"
    and "list_all (\<lambda>j. j = k \<or> \<not> isl (page_call p lang ms w0 j)) [0..<length ms]"
  shows "\<exists>r w'. analyzePdfContentComprehensive p textContent lang w = (Inr r, w')
     \<and> pageAnalyses r
         = map (\<lambda>j. projr (page_call p lang ms w0 j)) (filter (\<lambda>j. j \<noteq> k) [0..<length ms])
     \<and> length (pageAnalyses r) = length ms - 1
     \<and> ErrorProcessingPage (parseInt10 (fst (ms ! k))) e \<in> set (console w')"
proof -
  let ?S = "process_pages p lang ms (([], [], []), w0)"
  obtain a kp c w' where S: "?S = ((a, kp, c), w')" by (cases ?S) auto
  have same: "filter (\<lambda>i. \<not> isl (page_call p lang ms w0 i)) [0..<length ms]
              = filter (\<lambda>j. j \<noteq> k) [0..<length ms]"
    using assms(5,6) by (intro filter_cong) (auto simp: list_all_iff)
  from run_prefix[OF assms(3), of "length ms" p lang w0] S assms(4,5) same
  have a: "a = map (\<lambda>j. projr (page_call p lang ms w0 j)) (filter (\<lambda>j. j \<noteq> k) [0..<length ms])"
    and err: "ErrorProcessingPage (parseInt10 (fst (ms ! k))) e \<in> set (console w')"
    by auto
  have "analyzePdfContentComprehensive p textContent lang w
        = (Inr \<lparr>pageAnalyses = a,
                overallSummary = ''Comprehensive analysis of '' @ show_nat (length a)
                  @ '' pages with '' @ show_nat (length kp) @ '' total key points.'',
                totalKeyPoints = kp, tnpscCategories = set_values c\<rparr>, w')"
    using S assms(1,2) by (simp add: analyzePdfContentComprehensive_def aggregate_def)
  with a err others_count[OF assms(4)] show ?thesis by simp
qed


lemma five_pages_matches: "page_matches five_pages = five_segments"
  by code_simp

theorem comprehensive_one_failure_witness:
  "five_segments = page_matches five_pages
   \<and> length five_segments = 5
   \<and> list_all (\<lambda>m. \<not> sparse m) five_segments
   \<and> page_call (example_platform five_replies) English five_segments
         (say (LogFound (length five_segments)) world0) 2 = Inl InvalidJson
   \<and> list_all (\<lambda>j. j = 2 \<or> \<not> isl (page_call (example_platform five_replies) English
         five_segments (say (LogFound (length five_segments)) world0) j))
         [0..<length five_segments]
   \<and> (\<exists>r w'. analyzePdfContentComprehensive (example_platform five_replies) five_pages English
           world0 = (Inr r, w')
        \<and> pageAnalyses r
            = map (\<lambda>j. projr (page_call (example_platform five_replies) English five_segments
                  (say (LogFound (length five_segments)) world0) j))
                (filter (\<lambda>j. j \<noteq> 2) [0..<length five_segments])
        \<and> length (pageAnalyses r) = length five_segments - 1
        \<and> ErrorProcessingPage (parseInt10 (fst (five_segments ! 2))) InvalidJson
             \<in> set (console w'))"
proof -
  have h0: "five_segments = page_matches five_pages" by (simp add: five_pages_matches)
  have h1: "list_all (\<lambda>m. \<not> sparse m) five_segments" by code_simp
  have h2: "length five_segments = 5" by (simp add: five_segments_def)
  have h3: "page_call (example_platform five_replies) English five_segments
         (say (LogFound (length five_segments)) world0) 2 = Inl InvalidJson"
    by code_simp
  have h4: "list_all (\<lambda>j. j = 2 \<or> \<not> isl (page_call (example_platform five_replies) English
         five_segments (say (LogFound (length five_segments)) world0) j))
         [0..<length five_segments]"
    by code_simp
  have k: "2 < length five_segments" using h2 by simp
  show ?thesis
    using h0 h1 h2 h3 h4 comprehensive_one_failure [OF h0 refl h1 k h3 h4]
    by blast
qed

lemma run_prefix_all:
  assumes "j \<le> length ms"
  shows "fst (fst (process_pages p lang (take j ms) (([], [], []), w0)))
           = map (\<lambda>i. projr (page_call p lang ms w0 i))
               (filter (\<lambda>i. \<not> sparse (ms ! i) \<and> \<not> isl (page_call p lang ms w0 i)) [0..<j])"
  using assms
proof (induction j)
  case 0
  show ?case by simp
next
  case (Suc j)
  then have lt: "j < length ms" by simp
  let ?S = "process_pages p lang (take j ms) (([], [], []), w0)"
  obtain a kp c w where S: "?S = ((a, kp, c), w)" by (cases ?S) auto
  have step: "process_pages p lang (take (Suc j) ms) (([], [], []), w0)
              = process_page p lang (ms ! j) ((a, kp, c), w)"
    using take_step[OF lt] S by simp
  from Suc.IH lt S have IH: "a = map (\<lambda>i. projr (page_call p lang ms w0 i))
               (filter (\<lambda>i. \<not> sparse (ms ! i) \<and> \<not> isl (page_call p lang ms w0 i)) [0..<j])"
    by simp
  show ?case
  proof (cases "sparse (ms ! j)")
    case True
    then show ?thesis unfolding step using IH by (simp add: process_page_sparse)
  next
    case False
    have call: "page_call p lang ms w0 j = fst (call_of p lang (ms ! j) w)"
      using S by (simp add: page_call_alt)
    have "fst (fst (process_page p lang (ms ! j) ((a, kp, c), w)))
      = a @ (case page_call p lang ms w0 j of Inl e \<Rightarrow> [] | Inr x \<Rightarrow> [x])"
      using process_page_arrays[OF False, of p lang a kp c w] call by (simp split: sum.splits)
    then show ?thesis
      unfolding step using IH False by (cases "page_call p lang ms w0 j") simp_all
  qed
qed

lemma array_key_points: "is_array (keyPoints a) \<Longrightarrow> JArr (key_point_list a) = keyPoints a"
  by (cases "keyPoints a") (simp_all add: is_array_def key_point_list_def)

text \<open>
  C7 as the spec states it, for every run: the summary counts the successfully processed
  pages and \<^verbatim>\<open>totalKeyPoints\<close> is the concatenation of their \<^verbatim>\<open>keyPoints\<close> lists.  When a
  reply carries a \<^verbatim>\<open>keyPoints\<close> value that is not iterable (here \<^verbatim>\<open>true\<close> for page 1), the
  page has already been pushed to \<^verbatim>\<open>pageAnalyses\<close> when the spread into
  \<^verbatim>\<open>allKeyPoints\<close> throws: the summary counts two pages, page 1 among them with a
  \<^verbatim>\<open>keyPoints\<close> that is no list, while the console records page 1 as failed.  Both
  files behave so.
\<close>

theorem comprehensive_counts_failed_page:
  "analyzePdfContentComprehensive (example_platform untyped_replies) three_pages English world0
     = (Inr \<lparr>pageAnalyses =
               [\<lparr>pageNumber = 1, keyPoints = JBool True, studyPoints = JArr [],
                 summary = JStr ''s1'', tnpscRelevance = JStr []\<rparr>,
                \<lparr>pageNumber = 2, keyPoints = JArr [JStr ''k2''], studyPoints = JArr [],
                 summary = JStr [], tnpscRelevance = JStr []\<rparr>],
             overallSummary = ''Comprehensive analysis of 2 pages with 1 total key points.'',
             totalKeyPoints = [JStr ''k2''], tnpscCategories = []\<rparr>,
        \<lparr>fetches = 2, sleeps = [200, 200],
         console =
           [LogFound 3,
            ErrorProcessingPage 1 (TypeError ''Spread syntax requires an iterable'')]\<rparr>)
   \<and> analyzePdfContentComprehensive_direct (example_platform untyped_replies) example_templates
       three_pages English world0
     = (Inr \<lparr>pageAnalyses =
               [\<lparr>pageNumber = 1, keyPoints = JBool True, studyPoints = JArr [],
                 summary = JStr ''s1'', tnpscRelevance = JStr []\<rparr>,
                \<lparr>pageNumber = 2, keyPoints = JArr [JStr ''k2''], studyPoints = JArr [],
                 summary = JStr [], tnpscRelevance = JStr []\<rparr>],
             overallSummary =
               ''Comprehensive analysis of 2 pages with 1 total key points identified.'',
             totalKeyPoints = [JStr ''k2''], tnpscCategories = []\<rparr>,
        \<lparr>fetches = 2, sleeps = [500, 500],
         console =
           [LogFound 3,
            ErrorAnalyzingPage 1 (TypeError ''Spread syntax requires an iterable'')]\<rparr>)"
  by code_simp

text \<open>
  C7, amended.  Take any OCR text and any run in which every page analysis that a model
  call returns has a list as its \<^verbatim>\<open>keyPoints\<close> (the declared type \<^verbatim>\<open>string[]\<close>; an absent
  or falsy value has become the empty list).  Then the function returns an aggregate
  whose \<^verbatim>\<open>pageAnalyses\<close> are exactly the analyses of the segments that are not sparse and
  whose model call returned, in page-segment order; the overall summary reports their
  number and the number of total key points; and \<^verbatim>\<open>totalKeyPoints\<close> is exactly the
  concatenation, in that order, of the \<^verbatim>\<open>keyPoints\<close> lists of these pages.
\<close>

theorem comprehensive_typed_aggregate:
  assumes "ms = page_matches textContent"
    and "w0 = say (LogFound (length ms)) w"
    and "list_all (\<lambda>a. is_array (keyPoints a)) (returned_analyses p lang ms w0)"
  shows "\<exists>r w' lists. analyzePdfContentComprehensive p textContent lang w = (Inr r, w')
     \<and> pageAnalyses r = returned_analyses p lang ms w0
     \<and> overallSummary r
         = ''Comprehensive analysis of '' @ show_nat (length (returned_analyses p lang ms w0))
           @ '' pages with '' @ show_nat (length (totalKeyPoints r)) @ '' total key points.''
     \<and> map keyPoints (pageAnalyses r) = map JArr lists
     \<and> totalKeyPoints r = concat lists"
proof -
  let ?S = "process_pages p lang ms (([], [], []), w0)"
  obtain a kp c w' where S: "?S = ((a, kp, c), w')" by (cases ?S) auto
  from run_prefix_all[of "length ms" ms p lang w0] S
  have a: "a = returned_analyses p lang ms w0"
    by (simp add: returned_analyses_def)
  from process_pages_collects[of p lang ms "[]" "[]" "[]" w0] S
  have kp: "kp = concat (map key_point_list a)" by auto
  let ?r = "\<lparr>pageAnalyses = a,
             overallSummary = ''Comprehensive analysis of '' @ show_nat (length a)
               @ '' pages with '' @ show_nat (length kp) @ '' total key points.'',
             totalKeyPoints = kp, tnpscCategories = set_values c\<rparr>"
  have run: "analyzePdfContentComprehensive p textContent lang w = (Inr ?r, w')"
    using S assms(1,2) by (simp add: analyzePdfContentComprehensive_def aggregate_def)
  have pages: "pageAnalyses ?r = returned_analyses p lang ms w0"
    using a by simp
  have summary: "overallSummary ?r
         = ''Comprehensive analysis of '' @ show_nat (length (returned_analyses p lang ms w0))
           @ '' pages with '' @ show_nat (length (totalKeyPoints ?r)) @ '' total key points.''"
    using a by (simp del: show_nat.simps)
  have "\<forall>x \<in> set a. keyPoints x = JArr (key_point_list x)"
    using assms(3) a by (auto simp: list_all_iff array_key_points)
  then have lists: "map keyPoints (pageAnalyses ?r) = map JArr (map key_point_list a)"
    by simp
  have total: "totalKeyPoints ?r = concat (map key_point_list a)"
    using kp by simp
  from run pages summary lists total show ?thesis by blast
qed

theorem comprehensive_typed_aggregate_witness:
  "five_segments = page_matches five_pages
   \<and> list_all (\<lambda>a. is_array (keyPoints a))
         (returned_analyses (example_platform five_replies) English five_segments
            (say (LogFound (length five_segments)) world0))
   \<and> map (\<lambda>a. (pageNumber a, keyPoints a))
         (returned_analyses (example_platform five_replies) English five_segments
            (say (LogFound (length five_segments)) world0))
       = [(1, JArr [JStr ''k1a'', JStr ''k1b'']), (2, JArr [JStr ''k2'']),
          (4, JArr [JStr ''k4'']), (5, JArr [])]
   \<and> (\<exists>r w' lists. analyzePdfContentComprehensive (example_platform five_replies) five_pages
           English world0 = (Inr r, w')
        \<and> pageAnalyses r
            = returned_analyses (example_platform five_replies) English five_segments
                (say (LogFound (length five_segments)) world0)
        \<and> overallSummary r
            = ''Comprehensive analysis of ''
              @ show_nat (length (returned_analyses (example_platform five_replies) English
                   five_segments (say (LogFound (length five_segments)) world0)))
              @ '' pages with '' @ show_nat (length (totalKeyPoints r)) @ '' total key points.''
        \<and> map keyPoints (pageAnalyses r) = map JArr lists
        \<and> totalKeyPoints r = concat lists)"
proof -
  have h0: "five_segments = page_matches five_pages" by (simp add: five_pages_matches)
  have h1: "list_all (\<lambda>a. is_array (keyPoints a))
         (returned_analyses (example_platform five_replies) English five_segments
            (say (LogFound (length five_segments)) world0))"
    by code_simp
  have h2: "map (\<lambda>a. (pageNumber a, keyPoints a))
         (returned_analyses (example_platform five_replies) English five_segments
            (say (LogFound (length five_segments)) world0))
       = [(1, JArr [JStr ''k1a'', JStr ''k1b'']), (2, JArr [JStr ''k2'']),
          (4, JArr [JStr ''k4'']), (5, JArr [])]"
    by code_simp
  show ?thesis
    using h0 h1 h2 comprehensive_typed_aggregate [OF h0 refl h1]
    by blast
qed

lemma three_pages_matches:
  "page_matches three_pages = [five_segments ! 0] @ short_segment # [five_segments ! 1]"
  by code_simp

theorem sparse_page_skipped_witness:
  "page_matches three_pages = [five_segments ! 0] @ short_segment # [five_segments ! 1]
   \<and> length (trim (snd short_segment)) < 50
   \<and> process_page (example_platform five_replies) English short_segment
         (([], [], []), world0) = (([], [], []), world0)
   \<and> analyzePdfContentComprehensive (example_platform five_replies) three_pages English world0
       = aggregate (process_pages (example_platform five_replies) English
           ([five_segments ! 0] @ [five_segments ! 1])
           (([], [], []),
            say (LogFound (Suc (length [five_segments ! 0] + length [five_segments ! 1]))) world0))"
proof -
  have h: "length (trim (snd short_segment)) < 50" by code_simp
  show ?thesis
    using h three_pages_matches
      sparse_page_skipped [OF three_pages_matches h, of "example_platform five_replies" English
        "(([], [], []), world0)" world0]
    by simp
qed

section \<open>Properties of generateQuestions\<close>

lemma truthy_or_else: "truthy b \<Longrightarrow> truthy (or_else a b)"
  by (simp add: or_else_def split: option.splits)

lemma format_question_well_formed:
  assumes "format_question q = Inr q'"
  shows "well_formed_question q'"
proof -
  from assms have q': "q' = JObj (own_properties q @
            [(''type'', or_else (get_prop q ''type'') (JStr ''mcq'')),
             (''options'',
                (case get_prop q ''options'' of
                   Some (JArr options) \<Rightarrow> JArr options
                 | _ \<Rightarrow> JArr [JStr ''A'', JStr ''B'', JStr ''C'', JStr ''D''])),
             (''answer'', or_else (get_prop q ''answer'') (JStr ''A'')),
             (''matchingPairs'', or_else (get_prop q ''matchingPairs'') JNull)])"
    by (auto simp: format_question_def split: json.splits)
  show ?thesis
    unfolding q' well_formed_question_def
    by (auto simp: truthy_or_else is_array_def split: option.splits json.splits)
qed

lemma map_throwing_all:
  assumes "map_throwing f xs = Inr ys" and "\<And>x y. f x = Inr y \<Longrightarrow> P y"
  shows "list_all P ys \<and> length ys = length xs"
  using assms(1)
proof (induction xs arbitrary: ys)
  case Nil
  then show ?case by simp
next
  case (Cons x xs)
  then show ?case using assms(2) by (auto split: sum.splits)
qed

lemma format_questions_well_formed:
  "format_questions parsed = Inr qs \<Longrightarrow> list_all well_formed_question qs"
  using map_throwing_all[of format_question _ qs well_formed_question] format_question_well_formed
  by (auto simp: format_questions_def split: json.splits)

lemma format_questions_not_array:
  "\<not> is_array parsed \<Longrightarrow> format_questions parsed = Inr []"
  by (auto simp: format_questions_def is_array_def split: json.splits)

text \<open>
  C10. Whenever generateQuestions returns a result, \<^verbatim>\<open>totalQuestions\<close> is the length of
  \<^verbatim>\<open>questions\<close>; every question has a truthy \<^verbatim>\<open>type\<close>, an array as \<^verbatim>\<open>options\<close>, a truthy
  \<^verbatim>\<open>answer\<close> and a \<^verbatim>\<open>matchingPairs\<close> property; the questions are the formatted payload
  of the request, and they are empty when that payload is not an array.
\<close>

theorem generateQuestions_result:
  assumes "generateQuestions p analysisResults difficultyLevel lang w = (Inr r, w')"
  shows "totalQuestions r = length (questions r)
       \<and> list_all well_formed_question (questions r)
       \<and> (\<exists>parsed. fst (questions_payload p w) = Inr parsed
             \<and> format_questions parsed = Inr (questions r)
             \<and> (\<not> is_array parsed \<longrightarrow> questions r = []))"
proof -
  obtain pr w1 where pay: "questions_payload p w = (pr, w1)"
    by (cases "questions_payload p w") auto
  from assms pay obtain parsed where parsed: "pr = Inr parsed"
    and fq: "format_questions parsed = Inr (questions r)"
    and tot: "totalQuestions r = length (questions r)"
    by (auto simp: generateQuestions_def generateQuestions_body_def Let_def
        split: sum.splits prod.splits)
  from format_questions_not_array[of parsed] fq
  have "\<not> is_array parsed \<longrightarrow> questions r = []" by auto
  with pay parsed fq tot format_questions_well_formed[OF fq] show ?thesis by auto
qed


theorem generateQuestions_result_witness:
  "\<not> isl (fst (generateQuestions questions_platform two_results ''medium'' English world0))
   \<and> totalQuestions (projr (fst (generateQuestions questions_platform two_results ''medium''
         English world0))) = 2
   \<and> list_all well_formed_question
         (questions (projr (fst (generateQuestions questions_platform two_results ''medium''
            English world0))))
   \<and> map (\<lambda>q. (get_prop q ''type'', get_prop q ''options'', get_prop q ''answer'',
             get_prop q ''matchingPairs''))
         (questions (projr (fst (generateQuestions questions_platform two_results ''medium''
            English world0))))
       = [(Some (JStr ''assertion_reason''), Some (JArr [JStr ''w'', JStr ''x'']),
           Some (JStr ''B''), Some JNull),
          (Some (JStr ''mcq''), Some (JArr [JStr ''A'', JStr ''B'', JStr ''C'', JStr ''D'']),
           Some (JStr ''A''), Some JNull)]
   \<and> \<not> isl (fst (generateQuestions object_platform two_results ''hard'' Tamil world0))
   \<and> fst (questions_payload object_platform world0) = Inr (JObj [(''questions'', JArr [])])
   \<and> questions (projr (fst (generateQuestions object_platform two_results ''hard'' Tamil
         world0))) = []"
proof -
  let ?G1 = "generateQuestions questions_platform two_results ''medium'' English world0"
  let ?G2 = "generateQuestions object_platform two_results ''hard'' Tamil world0"
  have a1: "\<not> isl (fst ?G1)" by code_simp
  have b1: "map (\<lambda>q. (get_prop q ''type'', get_prop q ''options'', get_prop q ''answer'',
             get_prop q ''matchingPairs'')) (questions (projr (fst ?G1)))
       = [(Some (JStr ''assertion_reason''), Some (JArr [JStr ''w'', JStr ''x'']),
           Some (JStr ''B''), Some JNull),
          (Some (JStr ''mcq''), Some (JArr [JStr ''A'', JStr ''B'', JStr ''C'', JStr ''D'']),
           Some (JStr ''A''), Some JNull)]"
    by code_simp
  have a2: "\<not> isl (fst ?G2)" by code_simp
  have b2: "fst (questions_payload object_platform world0) = Inr (JObj [(''questions'', JArr [])])"
    by code_simp
  have r1: "?G1 = (Inr (projr (fst ?G1)), snd ?G1)"
    using a1 by (cases ?G1) (auto simp: isl_def)
  have r2: "?G2 = (Inr (projr (fst ?G2)), snd ?G2)"
    using a2 by (cases ?G2) (auto simp: isl_def)
  have len: "length (questions (projr (fst ?G1))) = 2"
    using arg_cong[OF b1, of length] by simp
  have na: "\<not> is_array (JObj [(''questions'', JArr [])])" by (simp add: is_array_def)
  show ?thesis
    using a1 b1 a2 b2 len na generateQuestions_result [OF r1] generateQuestions_result [OF r2]
    by auto
qed

section \<open>The same properties for geminiService.ts\<close>

lemma process_page_direct_sparse:
  "sparse m \<Longrightarrow> process_page_direct p tpl lang m st = st"
  by (simp add: process_page_direct_def sparse_def)

lemma process_batch_direct_append:
  "process_batch_direct p tpl lang (xs @ ys) st
   = process_batch_direct p tpl lang ys (process_batch_direct p tpl lang xs st)"
  by (induction xs arbitrary: st) simp_all

lemma process_batches_direct_all:
  "process_batches_direct p tpl lang ms i st = process_batch_direct p tpl lang (drop i ms) st"
proof (induction p tpl lang ms i st rule: process_batches_direct.induct)
  case (1 p tpl lang ms i st)
  show ?case
  proof (cases "i < length ms")
    case True
    have "take 5 (drop i ms) @ drop (i + 5) ms = drop i ms"
      by (metis add.commute append_take_drop_id drop_drop)
    with 1[OF True] True show ?thesis
      by (simp add: process_batches_direct.simps[of p tpl lang ms i st]
          process_batch_direct_append[symmetric])
  next
    case False
    then show ?thesis by (simp add: process_batches_direct.simps[of p tpl lang ms i st])
  qed
qed

lemma key_point_list_or_else:
  "key_point_list \<lparr>pageNumber = n, keyPoints = kp, studyPoints = sp, summary = su,
      tnpscRelevance = tr\<rparr> = (case spread kp of Inl _ \<Rightarrow> [] | Inr pts \<Rightarrow> pts)"
  by (simp add: key_point_list_def)

lemma try_page_direct_arrays:
  assumes "try_page_direct p pr n ((a, kp, c), w) = (e, (a', kp', c'), w')"
  shows "\<exists>new. a' = a @ new \<and> kp' = kp @ concat (map key_point_list new)
           \<and> list_all (\<lambda>x. pageNumber x = n) new \<and> length new \<le> 1
           \<and> (e = Completed \<longrightarrow> length new = 1)"
  using assms unfolding try_page_direct_def Let_def
  by (auto simp: key_point_list_def split: prod.splits fetch_outcome.splits if_splits sum.splits
      option.splits json.splits)


lemma process_page_direct_arrays:
  "\<exists>new. fst (process_page_direct p tpl lang m ((a, kp, c), w))
           = (a @ new, kp @ concat (map key_point_list new), snd (snd (fst
                (process_page_direct p tpl lang m ((a, kp, c), w)))))
        \<and> list_all (\<lambda>x. pageNumber x = parseInt10 (fst m)) new \<and> length new \<le> 1"
proof (cases "sparse m")
  case True
  then show ?thesis by (simp add: process_page_direct_sparse)
next
  case False
  let ?pr = "page_template tpl (language_instruction lang) (parseInt10 (fst m))
               (take 4000 (trim (snd m)))"
  obtain e a' kp' c' w' where t:
    "try_page_direct p ?pr (parseInt10 (fst m)) ((a, kp, c), w) = (e, (a', kp', c'), w')"
    by (cases "try_page_direct p ?pr (parseInt10 (fst m)) ((a, kp, c), w)") auto
  from try_page_direct_arrays[OF t] obtain new where
    "a' = a @ new" "kp' = kp @ concat (map key_point_list new)"
    "list_all (\<lambda>x. pageNumber x = parseInt10 (fst m)) new" "length new \<le> 1"
    by blast
  with False t show ?thesis
    by (auto simp: process_page_direct_def sparse_def Let_def split: page_end.splits)
qed

lemma process_batch_direct_collects:
  "\<exists>new. fst (fst (process_batch_direct p tpl lang ms ((a, kp, c), w))) = a @ new
        \<and> fst (snd (fst (process_batch_direct p tpl lang ms ((a, kp, c), w))))
            = kp @ concat (map key_point_list new)
        \<and> subseq (map pageNumber new) (map (\<lambda>m. parseInt10 (fst m)) ms)"
proof (induction ms arbitrary: a kp c w)
  case Nil
  show ?case by simp
next
  case (Cons m ms)
  obtain a1 kp1 c1 w1 where st: "process_page_direct p tpl lang m ((a, kp, c), w)
      = ((a1, kp1, c1), w1)"
    by (cases "process_page_direct p tpl lang m ((a, kp, c), w)") auto
  from process_page_direct_arrays[of p tpl lang m a kp c w] st obtain new1 where
    n1: "a1 = a @ new1" "kp1 = kp @ concat (map key_point_list new1)"
        "list_all (\<lambda>x. pageNumber x = parseInt10 (fst m)) new1" "length new1 \<le> 1"
    by auto
  from Cons[of a1 kp1 c1 w1] obtain new where
    n: "fst (fst (process_batch_direct p tpl lang ms ((a1, kp1, c1), w1))) = a1 @ new"
       "fst (snd (fst (process_batch_direct p tpl lang ms ((a1, kp1, c1), w1))))
          = kp1 @ concat (map key_point_list new)"
       "subseq (map pageNumber new) (map (\<lambda>m. parseInt10 (fst m)) ms)"
    by blast
  have sub: "subseq (map pageNumber (new1 @ new)) (map (\<lambda>m. parseInt10 (fst m)) (m # ms))"
  proof (cases new1)
    case Nil
    with n(3) show ?thesis by (auto intro: subseq_Cons')
  next
    case (Cons x xs)
    with n1(3,4) have "new1 = [x]" "pageNumber x = parseInt10 (fst m)" by auto
    with n(3) show ?thesis by simp
  qed
  have "fst (fst (process_batch_direct p tpl lang (m # ms) ((a, kp, c), w))) = a @ (new1 @ new)"
    and "fst (snd (fst (process_batch_direct p tpl lang (m # ms) ((a, kp, c), w))))
          = kp @ concat (map key_point_list (new1 @ new))"
    using st n(1,2) n1(1,2) by simp_all
  with sub show ?case by blast
qed

text \<open>
  The aggregate of the function of geminiService.ts: the same relations between the
  summary, \<^verbatim>\<open>totalKeyPoints\<close> and \<^verbatim>\<open>pageAnalyses\<close>, with its own wording of the summary.
\<close>

lemma comprehensive_direct_aggregate:
  "\<exists>r w'. analyzePdfContentComprehensive_direct p tpl textContent lang w = (Inr r, w')
     \<and> overallSummary r
         = ''Comprehensive analysis of '' @ show_nat (length (pageAnalyses r))
           @ '' pages with '' @ show_nat (length (totalKeyPoints r))
           @ '' total key points identified.''
     \<and> totalKeyPoints r = concat (map key_point_list (pageAnalyses r))
     \<and> subseq (map pageNumber (pageAnalyses r))
           (map (\<lambda>m. parseInt10 (fst m)) (page_matches textContent))"
proof -
  let ?ms = "page_matches textContent"
  let ?w0 = "say (LogFound (length ?ms)) w"
  let ?S = "process_batch_direct p tpl lang ?ms (([], [], []), ?w0)"
  obtain a kp c w' where S: "?S = ((a, kp, c), w')" by (cases ?S) auto
  from process_batch_direct_collects[of p tpl lang ?ms "[]" "[]" "[]" ?w0] S
  have "kp = concat (map key_point_list a)"
    and "subseq (map pageNumber a) (map (\<lambda>m. parseInt10 (fst m)) ?ms)"
    by auto
  with S show ?thesis
    by (simp add: analyzePdfContentComprehensive_direct_def aggregate_direct_def
        process_batches_direct_all)
qed

text \<open>The function of geminiService.ts skips a sparse segment in the same way (claim C8).\<close>

lemma sparse_page_skipped_direct:
  assumes "page_matches textContent = before @ match # after"
    and "length (trim (snd match)) < 50"
  shows "process_page_direct p tpl lang match state = state
       \<and> analyzePdfContentComprehensive_direct p tpl textContent lang w
           = aggregate_direct (process_batch_direct p tpl lang (before @ after)
               (([], [], []), say (LogFound (Suc (length before + length after))) w))"
  using assms
  by (simp add: analyzePdfContentComprehensive_direct_def process_batches_direct_all
      process_batch_direct_append process_page_direct_sparse sparse_def)

text \<open>
  generateQuestions of geminiService.ts maps without an array check: a payload that is
  not an array makes it throw, so every result it returns comes from an array, and has
  the properties of claim C10 (the default options being "Option A" to "Option D").
\<close>

lemma format_question_direct_well_formed:
  assumes "format_question_direct q = Inr q'"
  shows "well_formed_question q'"
proof -
  from assms have q': "q' = JObj (own_properties q @
            [(''type'', or_else (get_prop q ''type'') (JStr ''mcq'')),
             (''options'',
                (case get_prop q ''options'' of
                   Some (JArr options) \<Rightarrow> JArr options
                 | _ \<Rightarrow> JArr [JStr ''Option A'', JStr ''Option B'', JStr ''Option C'',
                              JStr ''Option D''])),
             (''answer'', or_else (get_prop q ''answer'') (JStr ''A'')),
             (''matchingPairs'', or_else (get_prop q ''matchingPairs'') JNull)])"
    by (auto simp: format_question_direct_def split: json.splits)
  show ?thesis
    unfolding q' well_formed_question_def
    by (auto simp: truthy_or_else is_array_def split: option.splits json.splits)
qed

lemma generateQuestions_direct_result:
  assumes "generateQuestions_direct p tpl analysisResults difficultyLevel lang w = (Inr r, w')"
  shows "totalQuestions r = length (questions r)
       \<and> list_all well_formed_question (questions r)
       \<and> (\<exists>parsed. is_array parsed \<and> format_questions_direct parsed = Inr (questions r))"
proof -
  from assms obtain parsed where fq: "format_questions_direct parsed = Inr (questions r)"
    and tot: "totalQuestions r = length (questions r)"
    by (auto simp: generateQuestions_direct_def generateQuestions_direct_body_def Let_def
        split: sum.splits prod.splits)
  from fq obtain qs where qs: "parsed = JArr qs"
    "map_throwing format_question_direct qs = Inr (questions r)"
    by (auto simp: format_questions_direct_def split: json.splits)
  from map_throwing_all[OF qs(2), of well_formed_question] format_question_direct_well_formed
  have "list_all well_formed_question (questions r)" by blast
  moreover have "is_array parsed" using qs(1) by (simp add: is_array_def)
  ultimately show ?thesis using fq tot by blast
qed


lemma try_page_direct_console:
  assumes "try_page_direct p pr n ((a, kp, c), w) = (e, arrays, w')"
  shows "\<exists>new. console w' = console w @ new"
  using assms unfolding try_page_direct_def Let_def
  by (auto simp: do_fetch_def say_def split: prod.splits fetch_outcome.splits if_splits
      sum.splits option.splits json.splits)

lemma process_page_direct_step:
  assumes "\<not> sparse m"
  shows "\<exists>new. console (snd (process_page_direct p tpl lang m ((a, kp, c), w))) = console w @ new
       \<and> (\<forall>e. fst (try_page_direct p (prompt_of tpl lang m) (parseInt10 (fst m)) ((a, kp, c), w))
               = Threw e \<longrightarrow> ErrorAnalyzingPage (parseInt10 (fst m)) e \<in> set new)
       \<and> (fst (try_page_direct p (prompt_of tpl lang m) (parseInt10 (fst m)) ((a, kp, c), w))
               = Completed \<longrightarrow>
            length (fst (fst (process_page_direct p tpl lang m ((a, kp, c), w)))) = Suc (length a))
       \<and> length a \<le> length (fst (fst (process_page_direct p tpl lang m ((a, kp, c), w))))"
proof -
  let ?t = "try_page_direct p (prompt_of tpl lang m) (parseInt10 (fst m)) ((a, kp, c), w)"
  obtain e a' kp' c' w' where t: "?t = (e, (a', kp', c'), w')"
    by (cases ?t) auto
  from try_page_direct_console[OF t] obtain new1 where n1: "console w' = console w @ new1"
    by blast
  from try_page_direct_arrays[OF t] obtain new where
    new: "a' = a @ new" "e = Completed \<longrightarrow> length new = 1"
    by blast
  show ?thesis
    using assms t n1 new
    by (cases e)
       (auto simp: process_page_direct_def sparse_def Let_def prompt_of_def say_def sleep_def)
qed

lemma page_end_direct_alt:
  "page_end_direct p tpl lang ms w0 j
   = fst (try_page_direct p (prompt_of tpl lang (ms ! j)) (parseInt10 (fst (ms ! j)))
            (process_batch_direct p tpl lang (take j ms) (([], [], []), w0)))"
  by (simp add: page_end_direct_def prompt_of_def)

lemma run_prefix_direct:
  assumes "list_all (\<lambda>m. \<not> sparse m) ms" "j \<le> length ms"
  shows "length (filter (\<lambda>i. page_end_direct p tpl lang ms w0 i = Completed) [0..<j])
           \<le> length (fst (fst (process_batch_direct p tpl lang (take j ms) (([], [], []), w0))))
       \<and> (\<forall>i<j. \<forall>e. page_end_direct p tpl lang ms w0 i = Threw e \<longrightarrow>
             ErrorAnalyzingPage (parseInt10 (fst (ms ! i))) e
               \<in> set (console (snd (process_batch_direct p tpl lang (take j ms)
                      (([], [], []), w0)))))"
  using assms(2)
proof (induction j)
  case 0
  show ?case by simp
next
  case (Suc j)
  then have lt: "j < length ms" by simp
  let ?S = "process_batch_direct p tpl lang (take j ms) (([], [], []), w0)"
  obtain a kp c w where S: "?S = ((a, kp, c), w)" by (cases ?S) auto
  have ns: "\<not> sparse (ms ! j)" using assms(1) lt by (simp add: list_all_length)
  have step: "process_batch_direct p tpl lang (take (Suc j) ms) (([], [], []), w0)
              = process_page_direct p tpl lang (ms ! j) ((a, kp, c), w)"
    using lt S by (simp add: take_Suc_conv_app_nth process_batch_direct_append)
  have pe: "page_end_direct p tpl lang ms w0 j
            = fst (try_page_direct p (prompt_of tpl lang (ms ! j)) (parseInt10 (fst (ms ! j)))
                ((a, kp, c), w))"
    using S by (simp add: page_end_direct_alt)
  from Suc.IH lt S
  have IH1: "length (filter (\<lambda>i. page_end_direct p tpl lang ms w0 i = Completed) [0..<j])
               \<le> length a"
    and IH2: "\<forall>i<j. \<forall>e. page_end_direct p tpl lang ms w0 i = Threw e \<longrightarrow>
             ErrorAnalyzingPage (parseInt10 (fst (ms ! i))) e \<in> set (console w)"
    by simp_all
  from process_page_direct_step[OF ns, of p tpl lang a kp c w] pe obtain new where
    new: "console (snd (process_page_direct p tpl lang (ms ! j) ((a, kp, c), w)))
            = console w @ new"
         "\<forall>e. page_end_direct p tpl lang ms w0 j = Threw e
               \<longrightarrow> ErrorAnalyzingPage (parseInt10 (fst (ms ! j))) e \<in> set new"
         "page_end_direct p tpl lang ms w0 j = Completed \<longrightarrow>
            length (fst (fst (process_page_direct p tpl lang (ms ! j) ((a, kp, c), w))))
              = Suc (length a)"
         "length a \<le> length (fst (fst (process_page_direct p tpl lang (ms ! j) ((a, kp, c), w))))"
    by auto
  have "length (filter (\<lambda>i. page_end_direct p tpl lang ms w0 i = Completed) [0..<Suc j])
           \<le> length (fst (fst (process_batch_direct p tpl lang (take (Suc j) ms)
                  (([], [], []), w0))))"
    unfolding step using IH1 new(3,4) by auto
  moreover have "\<forall>i<Suc j. \<forall>e. page_end_direct p tpl lang ms w0 i = Threw e \<longrightarrow>
             ErrorAnalyzingPage (parseInt10 (fst (ms ! i))) e
               \<in> set (console (snd (process_batch_direct p tpl lang (take (Suc j) ms)
                      (([], [], []), w0))))"
    unfolding step using IH2 new(1,2) by (auto simp: less_Suc_eq)
  ultimately show ?case by blast
qed

text \<open>
  The function of geminiService.ts under the scenario of claim C6: when the \<^verbatim>\<open>try\<close> block
  of one segment throws and the blocks of the others run to their end, the function
  returns its aggregate, with a page analysis for each of the others, and the console
  holds the error with the page number.
\<close>

lemma comprehensive_direct_one_failure:
  assumes "ms = page_matches textContent"
    and "w0 = say (LogFound (length ms)) w"
    and "list_all (\<lambda>m. \<not> sparse m) ms"
    and "k < length ms"
    and "page_end_direct p tpl lang ms w0 k = Threw e"
    and "list_all (\<lambda>j. j = k \<or> page_end_direct p tpl lang ms w0 j = Completed) [0..<length ms]"
  shows "\<exists>r w'. analyzePdfContentComprehensive_direct p tpl textContent lang w = (Inr r, w')
     \<and> length ms - 1 \<le> length (pageAnalyses r)
     \<and> ErrorAnalyzingPage (parseInt10 (fst (ms ! k))) e \<in> set (console w')"
proof -
  let ?S = "process_batch_direct p tpl lang ms (([], [], []), w0)"
  obtain a kp c w' where S: "?S = ((a, kp, c), w')" by (cases ?S) auto
  have same: "filter (\<lambda>i. page_end_direct p tpl lang ms w0 i = Completed) [0..<length ms]
              = filter (\<lambda>j. j \<noteq> k) [0..<length ms]"
    using assms(5,6) by (intro filter_cong) (auto simp: list_all_iff)
  from run_prefix_direct[OF assms(3), of "length ms" p tpl lang w0] S assms(4,5)
  have "length (filter (\<lambda>i. page_end_direct p tpl lang ms w0 i = Completed) [0..<length ms])
          \<le> length a"
    and err: "ErrorAnalyzingPage (parseInt10 (fst (ms ! k))) e \<in> set (console w')"
    by auto
  then have "length ms - 1 \<le> length a"
    using same others_count[OF assms(4)] by simp
  with err S assms(1,2) show ?thesis
    by (simp add: analyzePdfContentComprehensive_direct_def aggregate_direct_def
        process_batches_direct_all)
qed


end
